theory Spec2Isabelle
  imports Complex_Main
begin

section \<open>Floating-point values\<close>

text \<open>
  The program computes on IEEE doubles held in pandas columns. A double is modelled as
  a finite real, one of the two infinities, or not-a-number. Arithmetic on finite values
  is exact (no rounding error) and zero carries no sign: a nonzero value divided by zero
  gives the infinity with the sign of the numerator, and zero divided by zero gives NaN.
  Every ordering comparison with NaN is false, as in Python.
\<close>

datatype fl = Fin real | PInf | NInf | NaN

fun notna :: "fl \<Rightarrow> bool" where
  "notna NaN = False"
| "notna _ = True"

fun fl_neg :: "fl \<Rightarrow> fl" where
  "fl_neg (Fin a) = Fin (- a)"
| "fl_neg PInf = NInf"
| "fl_neg NInf = PInf"
| "fl_neg NaN = NaN"

fun fl_add :: "fl \<Rightarrow> fl \<Rightarrow> fl" where
  "fl_add (Fin a) (Fin b) = Fin (a + b)"
| "fl_add NaN _ = NaN"
| "fl_add _ NaN = NaN"
| "fl_add PInf NInf = NaN"
| "fl_add NInf PInf = NaN"
| "fl_add PInf _ = PInf"
| "fl_add NInf _ = NInf"
| "fl_add _ PInf = PInf"
| "fl_add _ NInf = NInf"

definition fl_sub :: "fl \<Rightarrow> fl \<Rightarrow> fl" where
  "fl_sub x y = fl_add x (fl_neg y)"

fun fl_mul :: "fl \<Rightarrow> fl \<Rightarrow> fl" where
  "fl_mul (Fin a) (Fin b) = Fin (a * b)"
| "fl_mul NaN _ = NaN"
| "fl_mul _ NaN = NaN"
| "fl_mul (Fin a) PInf = (if a = 0 then NaN else if 0 < a then PInf else NInf)"
| "fl_mul (Fin a) NInf = (if a = 0 then NaN else if 0 < a then NInf else PInf)"
| "fl_mul PInf (Fin b) = (if b = 0 then NaN else if 0 < b then PInf else NInf)"
| "fl_mul NInf (Fin b) = (if b = 0 then NaN else if 0 < b then NInf else PInf)"
| "fl_mul PInf PInf = PInf"
| "fl_mul NInf NInf = PInf"
| "fl_mul PInf NInf = NInf"
| "fl_mul NInf PInf = NInf"

fun fl_div :: "fl \<Rightarrow> fl \<Rightarrow> fl" where
  "fl_div (Fin a) (Fin b) =
     (if b = 0 then (if a = 0 then NaN else if 0 < a then PInf else NInf)
      else Fin (a / b))"
| "fl_div NaN _ = NaN"
| "fl_div _ NaN = NaN"
| "fl_div (Fin a) PInf = Fin 0"
| "fl_div (Fin a) NInf = Fin 0"
| "fl_div PInf (Fin b) = (if 0 \<le> b then PInf else NInf)"
| "fl_div NInf (Fin b) = (if 0 \<le> b then NInf else PInf)"
| "fl_div PInf PInf = NaN"
| "fl_div PInf NInf = NaN"
| "fl_div NInf PInf = NaN"
| "fl_div NInf NInf = NaN"

fun fl_lt :: "fl \<Rightarrow> fl \<Rightarrow> bool" where
  "fl_lt (Fin a) (Fin b) = (a < b)"
| "fl_lt NaN _ = False"
| "fl_lt _ NaN = False"
| "fl_lt NInf NInf = False"
| "fl_lt NInf _ = True"
| "fl_lt PInf _ = False"
| "fl_lt (Fin a) PInf = True"
| "fl_lt (Fin a) NInf = False"

fun fl_le :: "fl \<Rightarrow> fl \<Rightarrow> bool" where
  "fl_le (Fin a) (Fin b) = (a \<le> b)"
| "fl_le NaN _ = False"
| "fl_le _ NaN = False"
| "fl_le NInf _ = True"
| "fl_le PInf PInf = True"
| "fl_le PInf _ = False"
| "fl_le (Fin a) PInf = True"
| "fl_le (Fin a) NInf = False"

definition fl_gt :: "fl \<Rightarrow> fl \<Rightarrow> bool" where
  "fl_gt x y = fl_lt y x"

definition fl_ge :: "fl \<Rightarrow> fl \<Rightarrow> bool" where
  "fl_ge x y = fl_le y x"

section \<open>Number formatting\<close>

text \<open>
  Python's \<open>round\<close> on a double and the format specifications \<open>.1f\<close> and \<open>.2f\<close> round to
  the nearest value with the requested number of decimals, ties going to the even digit.
\<close>

definition round_half_even :: "real \<Rightarrow> int" where
  "round_half_even y =
     (let f = \<lfloor>y\<rfloor>; r = y - of_int f
      in if r < 1 / 2 then f
         else if 1 / 2 < r then f + 1
         else if even f then f else f + 1)"

definition digit_char :: "nat \<Rightarrow> char" where
  "digit_char d = ''0123456789'' ! d"

fun string_of_nat :: "nat \<Rightarrow> string" where
  "string_of_nat n =
     (if n < 10 then [digit_char n]
      else string_of_nat (n div 10) @ [digit_char (n mod 10)])"

declare string_of_nat.simps [simp del]

definition zero_pad :: "nat \<Rightarrow> string \<Rightarrow> string" where
  "zero_pad d s = replicate (d - length s) (CHR ''0'') @ s"

text \<open>The format specification \<open>.df\<close> applied to a double.\<close>

fun format_f :: "nat \<Rightarrow> fl \<Rightarrow> string" where
  "format_f d NaN = ''nan''"
| "format_f d PInf = ''inf''"
| "format_f d NInf = ''-inf''"
| "format_f d (Fin x) =
     (let m = nat (round_half_even (\<bar>x\<bar> * 10 ^ d));
          ip = m div 10 ^ d;
          fp = m mod 10 ^ d
      in (if x < 0 then ''-'' else '''') @ string_of_nat ip @
         (if d = 0 then '''' else ''.'' @ zero_pad d (string_of_nat fp)))"

text \<open>The built-in \<open>round(x, k)\<close> on a double.\<close>

fun round_nd :: "fl \<Rightarrow> nat \<Rightarrow> fl" where
  "round_nd (Fin x) k = Fin (of_int (round_half_even (x * 10 ^ k)) / 10 ^ k)"
| "round_nd v k = v"

section \<open>Signal detector (\<open>trading_signals.py\<close>)\<close>

text \<open>
  A row of the joined indicator and price table, with the columns the detector reads.
  Dates are day numbers.
\<close>

record indicator_row =
  ticker :: string
  date :: nat
  close :: fl
  sma_50 :: fl
  sma_200 :: fl
  rsi_14 :: fl
  macd :: fl
  macd_signal :: fl
  bb_upper :: fl
  bb_lower :: fl

datatype signal_type =
    GOLDEN_CROSS | DEATH_CROSS | RSI_OVERSOLD | RSI_OVERBOUGHT
  | MACD_BULLISH | MACD_BEARISH | BB_OVERSOLD | BB_OVERBOUGHT | NEUTRAL

datatype signal_strength = STRONG | MEDIUM | WEAK | NEUTRAL_STRENGTH

record signal =
  signal_ticker :: string
  signal_date :: nat
  signal_type :: signal_type
  signal_strength :: signal_strength
  description :: string

definition mk_signal ::
  "string \<Rightarrow> nat \<Rightarrow> signal_type \<Rightarrow> signal_strength \<Rightarrow> string \<Rightarrow> signal" where
  "mk_signal t d ty st ds =
     \<lparr>signal_ticker = t, signal_date = d, signal_type = ty,
      signal_strength = st, description = ds\<rparr>"

text \<open>The eight conditions, in the order the source tests them.\<close>

definition golden_cross_cond :: "indicator_row \<Rightarrow> indicator_row \<Rightarrow> bool" where
  "golden_cross_cond latest previous \<longleftrightarrow>
     fl_gt (sma_50 latest) (sma_200 latest) \<and> fl_le (sma_50 previous) (sma_200 previous)"

definition death_cross_cond :: "indicator_row \<Rightarrow> indicator_row \<Rightarrow> bool" where
  "death_cross_cond latest previous \<longleftrightarrow>
     fl_lt (sma_50 latest) (sma_200 latest) \<and> fl_ge (sma_50 previous) (sma_200 previous)"

definition rsi_oversold_cond :: "indicator_row \<Rightarrow> bool" where
  "rsi_oversold_cond latest \<longleftrightarrow> notna (rsi_14 latest) \<and> fl_lt (rsi_14 latest) (Fin 30)"

definition rsi_overbought_cond :: "indicator_row \<Rightarrow> bool" where
  "rsi_overbought_cond latest \<longleftrightarrow> notna (rsi_14 latest) \<and> fl_gt (rsi_14 latest) (Fin 70)"

definition macd_bullish_cond :: "indicator_row \<Rightarrow> indicator_row \<Rightarrow> bool" where
  "macd_bullish_cond latest previous \<longleftrightarrow>
     notna (macd latest) \<and> notna (macd_signal latest) \<and>
     fl_gt (macd latest) (macd_signal latest) \<and>
     fl_le (macd previous) (macd_signal previous)"

definition macd_bearish_cond :: "indicator_row \<Rightarrow> indicator_row \<Rightarrow> bool" where
  "macd_bearish_cond latest previous \<longleftrightarrow>
     notna (macd latest) \<and> notna (macd_signal latest) \<and>
     fl_lt (macd latest) (macd_signal latest) \<and>
     fl_ge (macd previous) (macd_signal previous)"

definition bb_oversold_cond :: "indicator_row \<Rightarrow> bool" where
  "bb_oversold_cond latest \<longleftrightarrow>
     notna (bb_lower latest) \<and> fl_lt (close latest) (bb_lower latest)"

definition bb_overbought_cond :: "indicator_row \<Rightarrow> bool" where
  "bb_overbought_cond latest \<longleftrightarrow>
     notna (bb_upper latest) \<and> fl_gt (close latest) (bb_upper latest)"

text \<open>
  The body of \<open>generate_signals_for_ticker\<close> after the two rows are selected: each
  \<open>if\<close> appends at most one record to \<open>signals\<close>, and the final \<open>if not signals\<close>
  appends the neutral record.
\<close>

definition rule_signals :: "string \<Rightarrow> indicator_row \<Rightarrow> indicator_row \<Rightarrow> signal list" where
  "rule_signals t latest previous =
     (let d = date latest; rsi = rsi_14 latest; c = close latest in
      (if golden_cross_cond latest previous
       then [mk_signal t d GOLDEN_CROSS STRONG
               ''SMA50 crossed above SMA200 - Strong bullish long-term signal'']
       else []) @
      (if death_cross_cond latest previous
       then [mk_signal t d DEATH_CROSS STRONG
               ''SMA50 crossed below SMA200 - Strong bearish long-term signal'']
       else []) @
      (if rsi_oversold_cond latest
       then [mk_signal t d RSI_OVERSOLD MEDIUM
               (''RSI at '' @ format_f 1 rsi @
                '' - Stock potentially oversold, consider buying'')]
       else []) @
      (if rsi_overbought_cond latest
       then [mk_signal t d RSI_OVERBOUGHT MEDIUM
               (''RSI at '' @ format_f 1 rsi @
                '' - Stock potentially overbought, consider selling'')]
       else []) @
      (if macd_bullish_cond latest previous
       then [mk_signal t d MACD_BULLISH MEDIUM
               ''MACD crossed above signal line - Bullish momentum building'']
       else []) @
      (if macd_bearish_cond latest previous
       then [mk_signal t d MACD_BEARISH MEDIUM
               ''MACD crossed below signal line - Bearish momentum building'']
       else []) @
      (if bb_oversold_cond latest
       then [mk_signal t d BB_OVERSOLD WEAK
               (''Price ('' @ format_f 2 c @
                '') below lower Bollinger Band - Potential bounce'')]
       else []) @
      (if bb_overbought_cond latest
       then [mk_signal t d BB_OVERBOUGHT WEAK
               (''Price ('' @ format_f 2 c @
                '') above upper Bollinger Band - Potential pullback'')]
       else []))"

definition neutral_signal :: "string \<Rightarrow> nat \<Rightarrow> signal" where
  "neutral_signal t d =
     mk_signal t d NEUTRAL NEUTRAL_STRENGTH ''No significant technical signals detected''"

definition signals_for_rows :: "string \<Rightarrow> indicator_row \<Rightarrow> indicator_row \<Rightarrow> signal list" where
  "signals_for_rows t latest previous =
     (let signals = rule_signals t latest previous
      in if signals = [] then [neutral_signal t (date latest)] else signals)"

text \<open>
  \<open>stock = indicators_df[indicators_df['ticker'] == ticker].sort_values('date')\<close>:
  the ticker's rows in date order. A ticker has one row per date, so the order is
  determined by the dates.
\<close>

definition stock_rows :: "string \<Rightarrow> indicator_row list \<Rightarrow> indicator_row list" where
  "stock_rows t indicators_df = sort_key date (filter (\<lambda>r. ticker r = t) indicators_df)"

definition latest_row :: "indicator_row list \<Rightarrow> indicator_row" where
  "latest_row stock = stock ! (length stock - 1)"

definition previous_row :: "indicator_row list \<Rightarrow> indicator_row" where
  "previous_row stock = stock ! (length stock - 2)"

definition generate_signals_for_ticker :: "string \<Rightarrow> indicator_row list \<Rightarrow> signal list" where
  "generate_signals_for_ticker t indicators_df =
     (let stock = stock_rows t indicators_df
      in if length stock < 2 then []
         else signals_for_rows t (latest_row stock) (previous_row stock))"

text \<open>A rule fires when a record of its type is in the output.\<close>

definition fires :: "signal_type \<Rightarrow> signal list \<Rightarrow> bool" where
  "fires ty sigs \<longleftrightarrow> ty \<in> set (map signal_type sigs)"

definition no_rule_fires :: "indicator_row \<Rightarrow> indicator_row \<Rightarrow> bool" where
  "no_rule_fires latest previous \<longleftrightarrow>
     \<not> golden_cross_cond latest previous \<and> \<not> death_cross_cond latest previous \<and>
     \<not> rsi_oversold_cond latest \<and> \<not> rsi_overbought_cond latest \<and>
     \<not> macd_bullish_cond latest previous \<and> \<not> macd_bearish_cond latest previous \<and>
     \<not> bb_oversold_cond latest \<and> \<not> bb_overbought_cond latest"

text \<open>Number of characters after the decimal point of a rendered number.\<close>

definition decimals :: "string \<Rightarrow> nat option" where
  "decimals s =
     (if CHR ''.'' \<in> set s then Some (length (takeWhile (\<lambda>c. c \<noteq> CHR ''.'') (rev s)))
      else None)"

section \<open>Indicator engine (\<open>_add_indicators\<close>): moving averages and RSI\<close>

text \<open>
  A price column holds a finite number or a missing value (NaN) per bar: \<open>None\<close> is NaN.
  The columns derived from it by division are doubles, since a division can overflow to
  an infinity.
\<close>

type_synonym series = "real option list"

fun to_fl :: "real option \<Rightarrow> fl" where
  "to_fl None = NaN"
| "to_fl (Some x) = Fin x"

text \<open>\<open>Series.diff()\<close>: the first entry is NaN, and a difference with NaN is NaN.\<close>

fun opt_sub :: "real option \<Rightarrow> real option \<Rightarrow> real option" where
  "opt_sub (Some a) (Some b) = Some (a - b)"
| "opt_sub _ _ = None"

fun diff_from :: "real option \<Rightarrow> series \<Rightarrow> series" where
  "diff_from prev [] = []"
| "diff_from prev (x # xs) = opt_sub x prev # diff_from x xs"

definition diff :: "series \<Rightarrow> series" where
  "diff xs = diff_from None xs"

text \<open>
  \<open>Series.rolling(window=w).mean()\<close>: \<open>min_periods\<close> defaults to the window size, so the
  entry at row \<open>i\<close> is the mean of rows \<open>i - w + 1 .. i\<close> when all \<open>w\<close> of them exist and
  none is NaN, and NaN otherwise.
\<close>

definition window_mean :: "series \<Rightarrow> real option" where
  "window_mean ws =
     (if list_all (\<lambda>x. x \<noteq> None) ws
      then Some (sum_list (map the ws) / real (length ws)) else None)"

definition rolling_mean :: "nat \<Rightarrow> series \<Rightarrow> series" where
  "rolling_mean w xs =
     map (\<lambda>i. if Suc i < w then None else window_mean (take w (drop (Suc i - w) xs)))
       [0..<length xs]"

text \<open>\<open>close.rolling(window=n).mean()\<close>, the columns \<open>sma_20\<close>, \<open>sma_50\<close> and \<open>sma_200\<close>.\<close>

definition sma :: "nat \<Rightarrow> series \<Rightarrow> fl list" where
  "sma n closes = map to_fl (rolling_mean n closes)"

text \<open>
  \<open>delta.where(delta > 0, 0)\<close> keeps the entries where the comparison is true and puts 0
  elsewhere, also where \<open>delta\<close> is NaN; likewise \<open>-delta.where(delta < 0, 0)\<close>.
\<close>

fun gain_of :: "real option \<Rightarrow> real option" where
  "gain_of (Some d) = (if 0 < d then Some d else Some 0)"
| "gain_of None = Some 0"

fun loss_of :: "real option \<Rightarrow> real option" where
  "loss_of (Some d) = (if d < 0 then Some (- d) else Some 0)"
| "loss_of None = Some 0"

definition avg_gain :: "series \<Rightarrow> series" where
  "avg_gain closes = rolling_mean 14 (map gain_of (diff closes))"

definition avg_loss :: "series \<Rightarrow> series" where
  "avg_loss closes = rolling_mean 14 (map loss_of (diff closes))"

definition rs_series :: "series \<Rightarrow> fl list" where
  "rs_series closes =
     map (\<lambda>(g, l). fl_div (to_fl g) (to_fl l)) (zip (avg_gain closes) (avg_loss closes))"

definition rsi_of_rs :: "fl \<Rightarrow> fl" where
  "rsi_of_rs rs = fl_sub (Fin 100) (fl_div (Fin 100) (fl_add (Fin 1) rs))"

definition rsi_14_series :: "series \<Rightarrow> fl list" where
  "rsi_14_series closes = map rsi_of_rs (rs_series closes)"

section \<open>Risk engine (\<open>calculate_risk_metrics\<close>)\<close>

text \<open>
  The two columns of the indicator table the risk engine reads. A daily return is a
  finite number or missing (\<open>None\<close> is NaN); an infinite return, which needs a previous
  close of zero, is not modelled.
\<close>

record return_row =
  ret_ticker :: string
  daily_return :: "real option"

record risk_metrics =
  rm_ticker :: string
  sharpe_ratio :: fl
  sortino_ratio :: fl
  max_drawdown :: fl
  var_95 :: fl
  annualized_return :: fl
  annualized_volatility :: fl

definition RISK_FREE_RATE :: real where
  "RISK_FREE_RATE = 45 / 1000"

text \<open>\<open>Series.unique()\<close>: the distinct values in order of first appearance.\<close>

definition unique :: "'a list \<Rightarrow> 'a list" where
  "unique xs = rev (remdups (rev xs))"

fun dropna :: "real option list \<Rightarrow> real list" where
  "dropna [] = []"
| "dropna (None # xs) = dropna xs"
| "dropna (Some x # xs) = x # dropna xs"

text \<open>\<open>Series.mean()\<close> and \<open>Series.std()\<close> (sample deviation, \<open>ddof=1\<close>) of a NaN-free series.\<close>

definition mean_s :: "real list \<Rightarrow> fl" where
  "mean_s xs = (if xs = [] then NaN else Fin (sum_list xs / real (length xs)))"

definition std_s :: "real list \<Rightarrow> fl" where
  "std_s xs =
     (if length xs < 2 then NaN
      else let m = sum_list xs / real (length xs)
           in Fin (sqrt (sum_list (map (\<lambda>x. (x - m)\<^sup>2) xs) / real (length xs - 1))))"

fun cumprod_from :: "real \<Rightarrow> real list \<Rightarrow> real list" where
  "cumprod_from acc [] = []"
| "cumprod_from acc (x # xs) = (acc * x) # cumprod_from (acc * x) xs"

definition cumprod :: "real list \<Rightarrow> real list" where
  "cumprod xs = cumprod_from 1 xs"

fun cummax_from :: "real \<Rightarrow> real list \<Rightarrow> real list" where
  "cummax_from m [] = []"
| "cummax_from m (x # xs) = max m x # cummax_from (max m x) xs"

text \<open>\<open>Series.expanding().max()\<close>.\<close>

fun expanding_max :: "real list \<Rightarrow> real list" where
  "expanding_max [] = []"
| "expanding_max (x # xs) = x # cummax_from x xs"

text \<open>\<open>Series.min()\<close> skips NaN and is NaN when nothing is left.\<close>

definition fl_min :: "fl \<Rightarrow> fl \<Rightarrow> fl" where
  "fl_min a b = (if fl_lt b a then b else a)"

definition min_skipna :: "fl list \<Rightarrow> fl" where
  "min_skipna xs = (case filter notna xs of [] \<Rightarrow> NaN | y # ys \<Rightarrow> foldl fl_min y ys)"

text \<open>
  \<open>Series.quantile(q)\<close> with the default linear interpolation: the value at the
  fractional position \<open>(n - 1) q\<close> of the sorted series.
\<close>

definition quantile :: "real \<Rightarrow> real list \<Rightarrow> fl" where
  "quantile q xs =
     (if xs = [] then NaN
      else let s = sort xs;
               h = real (length xs - 1) * q;
               lo = nat \<lfloor>h\<rfloor>;
               hi = min (lo + 1) (length xs - 1)
           in Fin (s ! lo + (s ! hi - s ! lo) * (h - real lo)))"

definition ann_return :: "real list \<Rightarrow> fl" where
  "ann_return stock_returns = fl_mul (mean_s stock_returns) (Fin 252)"

definition ann_volatility :: "real list \<Rightarrow> fl" where
  "ann_volatility stock_returns = fl_mul (std_s stock_returns) (Fin (sqrt 252))"

definition excess_return :: "real list \<Rightarrow> fl" where
  "excess_return stock_returns = fl_sub (ann_return stock_returns) (Fin RISK_FREE_RATE)"

definition sharpe :: "real list \<Rightarrow> fl" where
  "sharpe stock_returns =
     (if fl_gt (ann_volatility stock_returns) (Fin 0)
      then fl_div (excess_return stock_returns) (ann_volatility stock_returns)
      else Fin 0)"

definition drawdown :: "real list \<Rightarrow> fl list" where
  "drawdown stock_returns =
     (let cum_returns = cumprod (map (\<lambda>r. 1 + r) stock_returns);
          rolling_max = expanding_max cum_returns
      in map (\<lambda>(c, m). fl_div (Fin (c - m)) (Fin m)) (zip cum_returns rolling_max))"

definition downside_returns :: "real list \<Rightarrow> real list" where
  "downside_returns stock_returns = filter (\<lambda>r. r < 0) stock_returns"

definition downside_std :: "real list \<Rightarrow> fl" where
  "downside_std stock_returns =
     fl_mul (std_s (downside_returns stock_returns)) (Fin (sqrt 252))"

definition sortino :: "real list \<Rightarrow> fl" where
  "sortino stock_returns =
     (if fl_gt (downside_std stock_returns) (Fin 0)
      then fl_div (excess_return stock_returns) (downside_std stock_returns)
      else Fin 0)"

definition risk_record :: "string \<Rightarrow> real list \<Rightarrow> risk_metrics" where
  "risk_record t stock_returns =
     \<lparr>rm_ticker = t,
      sharpe_ratio = round_nd (sharpe stock_returns) 4,
      sortino_ratio = round_nd (sortino stock_returns) 4,
      max_drawdown = round_nd (min_skipna (drawdown stock_returns)) 6,
      var_95 = round_nd (quantile (5 / 100) stock_returns) 6,
      annualized_return = round_nd (ann_return stock_returns) 6,
      annualized_volatility = round_nd (ann_volatility stock_returns) 6\<rparr>"

text \<open>\<open>df[df['ticker'] == ticker]['daily_return'].dropna()\<close>.\<close>

definition stock_returns_of :: "string \<Rightarrow> return_row list \<Rightarrow> real list" where
  "stock_returns_of t df = dropna (map daily_return (filter (\<lambda>r. ret_ticker r = t) df))"

text \<open>The loop body: a ticker with fewer than 30 returns is skipped by \<open>continue\<close>.\<close>

definition ticker_metrics :: "return_row list \<Rightarrow> string \<Rightarrow> risk_metrics list" where
  "ticker_metrics df t =
     (let stock_returns = stock_returns_of t df
      in if length stock_returns < 30 then [] else [risk_record t stock_returns])"

definition calculate_risk_metrics :: "return_row list \<Rightarrow> risk_metrics list" where
  "calculate_risk_metrics df = concat (map (ticker_metrics df) (unique (map ret_ticker df)))"

text \<open>The records reported for one ticker.\<close>

definition metrics_of :: "string \<Rightarrow> return_row list \<Rightarrow> risk_metrics list" where
  "metrics_of t df = filter (\<lambda>r. rm_ticker r = t) (calculate_risk_metrics df)"

section \<open>Sample inputs\<close>

definition mk_row ::
  "string \<Rightarrow> nat \<Rightarrow> fl \<Rightarrow> fl \<Rightarrow> fl \<Rightarrow> fl \<Rightarrow> fl \<Rightarrow> fl \<Rightarrow> fl \<Rightarrow> fl \<Rightarrow> indicator_row" where
  "mk_row t d c s50 s200 rsi m ms bu bl =
     \<lparr>ticker = t, date = d, close = c, sma_50 = s50, sma_200 = s200, rsi_14 = rsi,
      macd = m, macd_signal = ms, bb_upper = bu, bb_lower = bl\<rparr>"

definition bb_example :: "indicator_row list" where
  "bb_example =
     [mk_row ''AAPL'' 1 (Fin 100) NaN NaN NaN NaN NaN (Fin 110) (Fin 96),
      mk_row ''AAPL'' 2 (Fin 95.27) NaN NaN (Fin 25.35) NaN NaN (Fin 110) (Fin 96)]"

definition returns_df :: "string \<Rightarrow> real list \<Rightarrow> return_row list" where
  "returns_df t rs = map (\<lambda>r. \<lparr>ret_ticker = t, daily_return = Some r\<rparr>) rs"

text \<open>The return series of the specification's example, repeated to 32 points.\<close>

definition spec_returns :: "real list" where
  "spec_returns = concat (replicate 8 [1 / 100, - (2 / 100), 3 / 100, - (1 / 100)])"

text \<open>A flat close series of 20 bars and a series rising by 1 per bar.\<close>

definition flat_closes :: series where
  "flat_closes = replicate 20 (Some 100)"

definition rising_closes :: series where
  "rising_closes =
     [Some 100, Some 101, Some 102, Some 103, Some 104, Some 105, Some 106, Some 107,
      Some 108, Some 109, Some 110, Some 111, Some 112, Some 113, Some 114]"

text \<open>Twenty bars whose last close is missing.\<close>

definition gap_closes :: series where
  "gap_closes = replicate 19 (Some 100) @ [None]"

text \<open>
  A return table with two tickers, each starting with a missing return: one has 30 valid
  returns, the other 29.
\<close>

definition risk_example :: "return_row list" where
  "risk_example =
     \<lparr>ret_ticker = ''AAPL'', daily_return = None\<rparr> # returns_df ''AAPL'' (replicate 30 (1 / 100)) @
     \<lparr>ret_ticker = ''MSFT'', daily_return = None\<rparr> # returns_df ''MSFT'' (replicate 29 (1 / 100))"

text \<open>
  An indicator table that is not in date order and holds a second ticker with a later
  date.
\<close>

definition cross_example :: "indicator_row list" where
  "cross_example =
     [mk_row ''AAPL'' 2 (Fin 101) (Fin 96) (Fin 95) NaN NaN NaN NaN NaN,
      mk_row ''MSFT'' 3 (Fin 50) (Fin 40) (Fin 45) NaN NaN NaN NaN NaN,
      mk_row ''AAPL'' 1 (Fin 100) (Fin 90) (Fin 95) NaN NaN NaN NaN NaN]"

section \<open>Properties of the signal detector\<close>

lemma fires_rule_signals:
  "fires ty (rule_signals t l p) \<longleftrightarrow>
     (ty = GOLDEN_CROSS \<and> golden_cross_cond l p) \<or>
     (ty = DEATH_CROSS \<and> death_cross_cond l p) \<or>
     (ty = RSI_OVERSOLD \<and> rsi_oversold_cond l) \<or>
     (ty = RSI_OVERBOUGHT \<and> rsi_overbought_cond l) \<or>
     (ty = MACD_BULLISH \<and> macd_bullish_cond l p) \<or>
     (ty = MACD_BEARISH \<and> macd_bearish_cond l p) \<or>
     (ty = BB_OVERSOLD \<and> bb_oversold_cond l) \<or>
     (ty = BB_OVERBOUGHT \<and> bb_overbought_cond l)"
  by (auto simp: fires_def rule_signals_def mk_signal_def Let_def)

lemma rule_signals_empty:
  "rule_signals t l p = [] \<longleftrightarrow> no_rule_fires l p"
  by (simp add: rule_signals_def no_rule_fires_def Let_def)

lemma fires_signals_for_rows:
  "ty \<noteq> NEUTRAL \<Longrightarrow> fires ty (signals_for_rows t l p) = fires ty (rule_signals t l p)"
  by (auto simp: signals_for_rows_def Let_def fires_def neutral_signal_def mk_signal_def)

lemma fires_neutral_signals_for_rows:
  "fires NEUTRAL (signals_for_rows t l p) \<longleftrightarrow> no_rule_fires l p"
  using fires_rule_signals[of NEUTRAL t l p] rule_signals_empty[of t l p]
  by (auto simp: signals_for_rows_def Let_def fires_def neutral_signal_def mk_signal_def)

lemma length_rule_signals:
  "length (rule_signals t l p) =
     of_bool (golden_cross_cond l p) + of_bool (death_cross_cond l p) +
     of_bool (rsi_oversold_cond l) + of_bool (rsi_overbought_cond l) +
     of_bool (macd_bullish_cond l p) + of_bool (macd_bearish_cond l p) +
     of_bool (bb_oversold_cond l) + of_bool (bb_overbought_cond l)"
  by (simp add: rule_signals_def Let_def)

lemma fl_lt_asym: "fl_lt x y \<Longrightarrow> \<not> fl_lt y x"
  by (cases x; cases y) auto

lemma fl_lt_not_le: "fl_lt x y \<Longrightarrow> \<not> fl_le y x"
  by (cases x; cases y) auto

lemma fl_lt_trans: "fl_lt x y \<Longrightarrow> fl_lt y z \<Longrightarrow> fl_lt x z"
  by (cases x; cases y; cases z) auto

lemma cross_exclusive: "\<not> (golden_cross_cond l p \<and> death_cross_cond l p)"
  by (auto simp: golden_cross_cond_def death_cross_cond_def fl_gt_def dest: fl_lt_asym)

lemma rsi_exclusive: "\<not> (rsi_oversold_cond l \<and> rsi_overbought_cond l)"
  by (cases "rsi_14 l") (auto simp: rsi_oversold_cond_def rsi_overbought_cond_def fl_gt_def)

lemma macd_exclusive: "\<not> (macd_bullish_cond l p \<and> macd_bearish_cond l p)"
  by (auto simp: macd_bullish_cond_def macd_bearish_cond_def fl_gt_def dest: fl_lt_asym)

lemma bb_exclusive:
  "\<not> fl_gt (bb_lower l) (bb_upper l) \<Longrightarrow> \<not> (bb_oversold_cond l \<and> bb_overbought_cond l)"
  by (auto simp: bb_oversold_cond_def bb_overbought_cond_def fl_gt_def dest: fl_lt_trans)

lemma fl_le_imp_not_gt: "fl_le x y \<Longrightarrow> \<not> fl_gt x y"
  by (auto simp: fl_gt_def dest: fl_lt_not_le)

lemma rule_signals_non_neutral:
  "filter (\<lambda>s. signal_type s \<noteq> NEUTRAL) (rule_signals t l p) = rule_signals t l p"
  by (simp add: rule_signals_def mk_signal_def Let_def)

lemma length_stock_rows:
  "length (stock_rows t df) = length (filter (\<lambda>r. ticker r = t) df)"
  by (simp add: stock_rows_def)

text \<open>
  Claim C5. A ticker with fewer than two rows in the indicator table gets no signal
  record. A ticker with at least two rows for which none of the eight conditions holds
  on its latest and previous row gets exactly one record, of type NEUTRAL and strength
  NEUTRAL.
\<close>

theorem neutral_or_nothing:
  "(length (filter (\<lambda>r. ticker r = t) df) < 2 \<longrightarrow> generate_signals_for_ticker t df = []) \<and>
   (2 \<le> length (filter (\<lambda>r. ticker r = t) df) \<and>
    no_rule_fires (latest_row (stock_rows t df)) (previous_row (stock_rows t df)) \<longrightarrow>
      generate_signals_for_ticker t df =
        [neutral_signal t (date (latest_row (stock_rows t df)))] \<and>
      map signal_type (generate_signals_for_ticker t df) = [NEUTRAL] \<and>
      map signal_strength (generate_signals_for_ticker t df) = [NEUTRAL_STRENGTH])"
  using rule_signals_empty[of t "latest_row (stock_rows t df)" "previous_row (stock_rows t df)"]
  by (simp add: generate_signals_for_ticker_def signals_for_rows_def Let_def length_stock_rows
      neutral_signal_def mk_signal_def)

theorem neutral_or_nothing_witness:
  "generate_signals_for_ticker ''AAPL'' [mk_row ''AAPL'' 1 (Fin 100) NaN NaN NaN NaN NaN NaN NaN] = [] \<and>
   map signal_type (generate_signals_for_ticker ''AAPL''
      [mk_row ''AAPL'' 1 (Fin 100) NaN NaN NaN NaN NaN NaN NaN,
       mk_row ''AAPL'' 2 (Fin 101) NaN NaN NaN NaN NaN NaN NaN]) = [NEUTRAL] \<and>
   map signal_strength (generate_signals_for_ticker ''AAPL''
      [mk_row ''AAPL'' 1 (Fin 100) NaN NaN NaN NaN NaN NaN NaN,
       mk_row ''AAPL'' 2 (Fin 101) NaN NaN NaN NaN NaN NaN NaN]) = [NEUTRAL_STRENGTH]"
proof -
  let ?r1 = "mk_row ''AAPL'' 1 (Fin 100) NaN NaN NaN NaN NaN NaN NaN"
  let ?r2 = "mk_row ''AAPL'' 2 (Fin 101) NaN NaN NaN NaN NaN NaN NaN"
  have one: "length (filter (\<lambda>r. ticker r = ''AAPL'') [?r1]) < 2"
    by (simp add: mk_row_def)
  have two: "2 \<le> length (filter (\<lambda>r. ticker r = ''AAPL'') [?r1, ?r2])"
    by (simp add: mk_row_def)
  have st: "stock_rows ''AAPL'' [?r1, ?r2] = [?r1, ?r2]"
    by (simp add: stock_rows_def mk_row_def)
  have quiet: "no_rule_fires (latest_row (stock_rows ''AAPL'' [?r1, ?r2]))
                 (previous_row (stock_rows ''AAPL'' [?r1, ?r2]))"
    unfolding st
    by (simp add: no_rule_fires_def latest_row_def previous_row_def mk_row_def
        golden_cross_cond_def death_cross_cond_def rsi_oversold_cond_def rsi_overbought_cond_def
        macd_bullish_cond_def macd_bearish_cond_def bb_oversold_cond_def bb_overbought_cond_def
        fl_gt_def fl_ge_def)
  show ?thesis
    using neutral_or_nothing[of "''AAPL''" "[?r1]"] neutral_or_nothing[of "''AAPL''" "[?r1, ?r2]"]
      one two quiet
    by blast
qed

lemma stock_rows_latest_previous:
  assumes key: "distinct (map date (filter (\<lambda>r. ticker r = t) df))"
    and l: "l \<in> set df" "ticker l = t"
    and p: "p \<in> set df" "ticker p = t"
    and lt: "date p < date l"
    and rest: "\<forall>r\<in>set df. ticker r = t \<longrightarrow> r \<noteq> l \<longrightarrow> r \<noteq> p \<longrightarrow> date r < date p"
  shows "2 \<le> length (stock_rows t df) \<and> latest_row (stock_rows t df) = l \<and>
         previous_row (stock_rows t df) = p"
proof -
  define xs where "xs = stock_rows t df"
  define n where "n = length xs"
  have set_xs: "set xs = {r \<in> set df. ticker r = t}"
    by (auto simp: xs_def stock_rows_def)
  have srt: "sorted (map date xs)" by (simp add: xs_def stock_rows_def)
  have "distinct (filter (\<lambda>r. ticker r = t) df) \<and> inj_on date (set (filter (\<lambda>r. ticker r = t) df))"
    using key by (simp add: distinct_map)
  then have dxs: "distinct xs" and inj: "inj_on date (set xs)"
    by (simp_all add: xs_def stock_rows_def)
  have strict: "date (xs ! i) < date (xs ! j)" if "i < j" "j < n" for i j
  proof -
    have "map date xs ! i \<le> map date xs ! j"
      using that srt by (intro sorted_nth_mono) (simp_all add: n_def)
    then have le: "date (xs ! i) \<le> date (xs ! j)" using that by (simp add: n_def)
    have "xs ! i \<noteq> xs ! j" using that dxs by (simp add: nth_eq_iff_index_eq n_def)
    then have "date (xs ! i) \<noteq> date (xs ! j)"
      using inj that by (auto simp: inj_on_def n_def)
    then show ?thesis using le by simp
  qed
  have lp: "l \<noteq> p" using lt by auto
  have "l \<in> set xs" "p \<in> set xs" using l p by (simp_all add: set_xs)
  then obtain a b where a: "a < n" "xs ! a = l" and b: "b < n" "xs ! b = p"
    by (auto simp: in_set_conv_nth n_def)
  have ab: "a \<noteq> b" using a b lp by auto
  then have n2: "2 \<le> n" using a(1) b(1) by linarith
  have last_l: "xs ! (n - 1) = l"
  proof (rule ccontr)
    assume neq: "xs ! (n - 1) \<noteq> l"
    then have "a \<noteq> n - 1" using a by auto
    then have "a < n - 1" using a(1) by linarith
    then have d: "date l < date (xs ! (n - 1))" using strict[of a "n - 1"] a n2 by simp
    have "xs ! (n - 1) \<in> set xs" using n2 by (simp add: n_def)
    then have mem: "xs ! (n - 1) \<in> set df" "ticker (xs ! (n - 1)) = t"
      by (simp_all add: set_xs)
    show False
    proof (cases "xs ! (n - 1) = p")
      case True
      then show False using d lt by simp
    next
      case False
      then have "date (xs ! (n - 1)) < date p" using rest mem neq by blast
      then show False using d lt by simp
    qed
  qed
  have prev_p: "xs ! (n - 2) = p"
  proof (rule ccontr)
    assume neq: "xs ! (n - 2) \<noteq> p"
    have "b \<noteq> n - 1" using b last_l lp by auto
    moreover have "b \<noteq> n - 2" using b neq by auto
    ultimately have "b < n - 2" using b(1) by linarith
    then have d: "date p < date (xs ! (n - 2))" using strict[of b "n - 2"] b n2 by simp
    have "xs ! (n - 2) \<in> set xs" using n2 by (simp add: n_def)
    then have mem: "xs ! (n - 2) \<in> set df" "ticker (xs ! (n - 2)) = t"
      by (simp_all add: set_xs)
    have "n - 2 \<noteq> n - 1" using n2 by linarith
    then have "xs ! (n - 2) \<noteq> xs ! (n - 1)"
      using dxs n2 by (simp add: nth_eq_iff_index_eq n_def)
    then have "xs ! (n - 2) \<noteq> l" using last_l by simp
    then have "date (xs ! (n - 2)) < date p" using rest mem neq by blast
    then show False using d by simp
  qed
  show ?thesis
    using n2 last_l prev_p by (simp add: latest_row_def previous_row_def xs_def n_def)
qed

text \<open>
  Claim C6. Let a ticker have one row per date, let \<open>latest\<close> be its row with the
  greatest date and \<open>previous\<close> its row with the next greatest date. A GOLDEN_CROSS
  record is emitted exactly when \<open>sma_50 > sma_200\<close> on \<open>latest\<close> and
  \<open>sma_50 \<le> sma_200\<close> on \<open>previous\<close>, and a DEATH_CROSS record exactly when
  \<open>sma_50 < sma_200\<close> on \<open>latest\<close> and \<open>sma_50 \<ge> sma_200\<close> on \<open>previous\<close>. Hence no
  golden cross is reported when \<open>sma_50 > sma_200\<close> already held on the previous row, no
  death cross when \<open>sma_50 < sma_200\<close> already held there, and neither record when the
  latest row keeps the ordering of the previous row.
\<close>

theorem cross_fires_at_last_two_dates:
  "distinct (map date (filter (\<lambda>r. ticker r = t) df)) \<Longrightarrow>
   latest \<in> set df \<Longrightarrow> ticker latest = t \<Longrightarrow>
   previous \<in> set df \<Longrightarrow> ticker previous = t \<Longrightarrow>
   date previous < date latest \<Longrightarrow>
   \<forall>r\<in>set df. ticker r = t \<longrightarrow> r \<noteq> latest \<longrightarrow> r \<noteq> previous \<longrightarrow> date r < date previous \<Longrightarrow>
   (fires GOLDEN_CROSS (generate_signals_for_ticker t df) \<longleftrightarrow>
      fl_gt (sma_50 latest) (sma_200 latest) \<and> fl_le (sma_50 previous) (sma_200 previous)) \<and>
   (fires DEATH_CROSS (generate_signals_for_ticker t df) \<longleftrightarrow>
      fl_lt (sma_50 latest) (sma_200 latest) \<and> fl_ge (sma_50 previous) (sma_200 previous)) \<and>
   (fl_gt (sma_50 previous) (sma_200 previous) \<longrightarrow>
      \<not> fires GOLDEN_CROSS (generate_signals_for_ticker t df)) \<and>
   (fl_lt (sma_50 previous) (sma_200 previous) \<longrightarrow>
      \<not> fires DEATH_CROSS (generate_signals_for_ticker t df)) \<and>
   (fl_gt (sma_50 previous) (sma_200 previous) \<and> fl_gt (sma_50 latest) (sma_200 latest) \<longrightarrow>
      \<not> fires GOLDEN_CROSS (generate_signals_for_ticker t df) \<and>
      \<not> fires DEATH_CROSS (generate_signals_for_ticker t df)) \<and>
   (fl_lt (sma_50 previous) (sma_200 previous) \<and> fl_lt (sma_50 latest) (sma_200 latest) \<longrightarrow>
      \<not> fires GOLDEN_CROSS (generate_signals_for_ticker t df) \<and>
      \<not> fires DEATH_CROSS (generate_signals_for_ticker t df))"
proof -
  assume key: "distinct (map date (filter (\<lambda>r. ticker r = t) df))"
    and l: "latest \<in> set df" "ticker latest = t"
    and p: "previous \<in> set df" "ticker previous = t"
    and lt: "date previous < date latest"
    and rest: "\<forall>r\<in>set df. ticker r = t \<longrightarrow> r \<noteq> latest \<longrightarrow> r \<noteq> previous \<longrightarrow>
                 date r < date previous"
  have sel: "2 \<le> length (stock_rows t df) \<and> latest_row (stock_rows t df) = latest \<and>
             previous_row (stock_rows t df) = previous"
    by (rule stock_rows_latest_previous[OF key l p lt rest])
  then have gen: "generate_signals_for_ticker t df = signals_for_rows t latest previous"
    by (simp add: generate_signals_for_ticker_def Let_def)
  have g: "fires GOLDEN_CROSS (signals_for_rows t latest previous) \<longleftrightarrow>
             golden_cross_cond latest previous"
    by (simp add: fires_signals_for_rows fires_rule_signals)
  have d: "fires DEATH_CROSS (signals_for_rows t latest previous) \<longleftrightarrow>
             death_cross_cond latest previous"
    by (simp add: fires_signals_for_rows fires_rule_signals)
  have ng: "fl_gt (sma_50 previous) (sma_200 previous) \<Longrightarrow> \<not> golden_cross_cond latest previous"
    by (auto simp: golden_cross_cond_def dest: fl_le_imp_not_gt)
  have nd: "fl_lt (sma_50 previous) (sma_200 previous) \<Longrightarrow> \<not> death_cross_cond latest previous"
    by (auto simp: death_cross_cond_def fl_ge_def dest: fl_lt_not_le)
  show ?thesis
    unfolding gen g d using ng nd
    by (auto simp: golden_cross_cond_def death_cross_cond_def fl_gt_def dest: fl_lt_asym)
qed

theorem cross_fires_at_last_two_dates_witness:
  "fires GOLDEN_CROSS (generate_signals_for_ticker ''AAPL'' cross_example) \<and>
   \<not> fires DEATH_CROSS (generate_signals_for_ticker ''AAPL'' cross_example)"
proof -
  let ?l = "mk_row ''AAPL'' 2 (Fin 101) (Fin 96) (Fin 95) NaN NaN NaN NaN NaN"
  let ?p = "mk_row ''AAPL'' 1 (Fin 100) (Fin 90) (Fin 95) NaN NaN NaN NaN NaN"
  have key: "distinct (map date (filter (\<lambda>r. ticker r = ''AAPL'') cross_example))"
    by (simp add: cross_example_def mk_row_def)
  have l: "?l \<in> set cross_example" "ticker ?l = ''AAPL''"
    and p: "?p \<in> set cross_example" "ticker ?p = ''AAPL''"
    and lt: "date ?p < date ?l"
    by (simp_all add: cross_example_def mk_row_def)
  have rest: "\<forall>r\<in>set cross_example. ticker r = ''AAPL'' \<longrightarrow> r \<noteq> ?l \<longrightarrow> r \<noteq> ?p \<longrightarrow>
                date r < date ?p"
    by (simp add: cross_example_def mk_row_def)
  show ?thesis
    using cross_fires_at_last_two_dates[OF key l p lt rest]
    by (simp add: mk_row_def fl_gt_def fl_ge_def)
qed

text \<open>
  Claim C9. In the output for one ticker the two rules of an opposing pair never both
  fire: golden and death cross, RSI oversold and overbought, MACD bullish and bearish,
  and, when \<open>bb_lower \<le> bb_upper\<close> on the latest row, the two Bollinger rules. Then at
  most four records are not NEUTRAL. A NEUTRAL record is always the only record.
\<close>

theorem opposing_rules_exclusive:
  "(let sigs = generate_signals_for_ticker t df; latest = latest_row (stock_rows t df)
    in \<not> (fires GOLDEN_CROSS sigs \<and> fires DEATH_CROSS sigs) \<and>
       \<not> (fires RSI_OVERSOLD sigs \<and> fires RSI_OVERBOUGHT sigs) \<and>
       \<not> (fires MACD_BULLISH sigs \<and> fires MACD_BEARISH sigs) \<and>
       (fl_le (bb_lower latest) (bb_upper latest) \<longrightarrow>
          \<not> (fires BB_OVERSOLD sigs \<and> fires BB_OVERBOUGHT sigs) \<and>
          length (filter (\<lambda>s. signal_type s \<noteq> NEUTRAL) sigs) \<le> 4) \<and>
       (fires NEUTRAL sigs \<longrightarrow> length sigs = 1))"
proof (cases "length (stock_rows t df) < 2")
  case True
  then have "generate_signals_for_ticker t df = []"
    by (simp add: generate_signals_for_ticker_def Let_def)
  then show ?thesis by (simp add: fires_def Let_def)
next
  case False
  let ?l = "latest_row (stock_rows t df)"
  let ?p = "previous_row (stock_rows t df)"
  have gen: "generate_signals_for_ticker t df = signals_for_rows t ?l ?p"
    using False by (simp add: generate_signals_for_ticker_def Let_def)
  have f: "\<And>ty. ty \<noteq> NEUTRAL \<Longrightarrow> fires ty (signals_for_rows t ?l ?p) = fires ty (rule_signals t ?l ?p)"
    by (rule fires_signals_for_rows)
  have a: "\<not> (fires GOLDEN_CROSS (signals_for_rows t ?l ?p) \<and> fires DEATH_CROSS (signals_for_rows t ?l ?p))"
    using cross_exclusive[of ?l ?p] by (simp add: f fires_rule_signals)
  have b: "\<not> (fires RSI_OVERSOLD (signals_for_rows t ?l ?p) \<and> fires RSI_OVERBOUGHT (signals_for_rows t ?l ?p))"
    using rsi_exclusive[of ?l] by (simp add: f fires_rule_signals)
  have c: "\<not> (fires MACD_BULLISH (signals_for_rows t ?l ?p) \<and> fires MACD_BEARISH (signals_for_rows t ?l ?p))"
    using macd_exclusive[of ?l ?p] by (simp add: f fires_rule_signals)
  have d: "\<not> (fires BB_OVERSOLD (signals_for_rows t ?l ?p) \<and> fires BB_OVERBOUGHT (signals_for_rows t ?l ?p))"
    if "fl_le (bb_lower ?l) (bb_upper ?l)"
    using bb_exclusive[of ?l] fl_le_imp_not_gt[OF that] by (simp add: f fires_rule_signals)
  have nn: "filter (\<lambda>s. signal_type s \<noteq> NEUTRAL) (signals_for_rows t ?l ?p) = rule_signals t ?l ?p"
    using rule_signals_non_neutral[of t ?l ?p]
    by (simp add: signals_for_rows_def Let_def neutral_signal_def mk_signal_def)
  have e: "length (filter (\<lambda>s. signal_type s \<noteq> NEUTRAL) (signals_for_rows t ?l ?p)) \<le> 4"
    if "fl_le (bb_lower ?l) (bb_upper ?l)"
    unfolding nn length_rule_signals
    using cross_exclusive[of ?l ?p] rsi_exclusive[of ?l] macd_exclusive[of ?l ?p]
      bb_exclusive[of ?l] fl_le_imp_not_gt[OF that]
    by (auto simp: of_bool_def)
  have g: "length (signals_for_rows t ?l ?p) = 1" if "fires NEUTRAL (signals_for_rows t ?l ?p)"
  proof -
    from that have "no_rule_fires ?l ?p" by (simp add: fires_neutral_signals_for_rows)
    then have "rule_signals t ?l ?p = []" by (simp add: rule_signals_empty)
    then show ?thesis by (simp add: signals_for_rows_def)
  qed
  show ?thesis
    unfolding Let_def gen using a b c d e g by blast
qed

theorem opposing_rules_exclusive_witness:
  "\<not> (fires BB_OVERSOLD (generate_signals_for_ticker ''AAPL''
          [mk_row ''AAPL'' 1 (Fin 100) NaN NaN NaN NaN NaN (Fin 110) (Fin 90),
           mk_row ''AAPL'' 2 (Fin 101) NaN NaN NaN NaN NaN (Fin 110) (Fin 90)]) \<and>
       fires BB_OVERBOUGHT (generate_signals_for_ticker ''AAPL''
          [mk_row ''AAPL'' 1 (Fin 100) NaN NaN NaN NaN NaN (Fin 110) (Fin 90),
           mk_row ''AAPL'' 2 (Fin 101) NaN NaN NaN NaN NaN (Fin 110) (Fin 90)])) \<and>
   length (generate_signals_for_ticker ''AAPL''
          [mk_row ''AAPL'' 1 (Fin 100) NaN NaN NaN NaN NaN (Fin 110) (Fin 90),
           mk_row ''AAPL'' 2 (Fin 101) NaN NaN NaN NaN NaN (Fin 110) (Fin 90)]) = 1"
proof -
  let ?r1 = "mk_row ''AAPL'' 1 (Fin 100) NaN NaN NaN NaN NaN (Fin 110) (Fin 90)"
  let ?r2 = "mk_row ''AAPL'' 2 (Fin 101) NaN NaN NaN NaN NaN (Fin 110) (Fin 90)"
  have st: "stock_rows ''AAPL'' [?r1, ?r2] = [?r1, ?r2]"
    by (simp add: stock_rows_def mk_row_def)
  have bands: "fl_le (bb_lower (latest_row (stock_rows ''AAPL'' [?r1, ?r2])))
                 (bb_upper (latest_row (stock_rows ''AAPL'' [?r1, ?r2])))"
    unfolding st by (simp add: latest_row_def mk_row_def)
  have quiet: "fires NEUTRAL (generate_signals_for_ticker ''AAPL'' [?r1, ?r2])"
    unfolding generate_signals_for_ticker_def st
    by (simp add: signals_for_rows_def rule_signals_def latest_row_def previous_row_def
        mk_row_def Let_def fires_def neutral_signal_def mk_signal_def
        golden_cross_cond_def death_cross_cond_def rsi_oversold_cond_def rsi_overbought_cond_def
        macd_bullish_cond_def macd_bearish_cond_def bb_oversold_cond_def bb_overbought_cond_def
        fl_gt_def fl_ge_def)
  show ?thesis
    using opposing_rules_exclusive[of "''AAPL''" "[?r1, ?r2]"] bands quiet
    unfolding Let_def by blast
qed

section \<open>Properties of the descriptions\<close>

lemmas format_eval = round_half_even_def Let_def string_of_nat.simps digit_char_def zero_pad_def

lemma digit_char_not_dot: "d < 10 \<Longrightarrow> digit_char d \<noteq> CHR ''.''"
proof -
  assume "d < 10"
  then have "d \<in> {0,1,2,3,4,5,6,7,8,9}" by auto
  then show ?thesis by (auto simp: digit_char_def)
qed

lemma string_of_nat_no_dot: "CHR ''.'' \<notin> set (string_of_nat n)"
proof (induction n rule: string_of_nat.induct)
  case (1 n)
  show ?case
  proof (cases "n < 10")
    case True
    then show ?thesis using digit_char_not_dot[of n]
      by (subst string_of_nat.simps) simp
  next
    case False
    have "n mod 10 < 10" by simp
    then have "digit_char (n mod 10) \<noteq> CHR ''.''" by (rule digit_char_not_dot)
    then show ?thesis using False 1
      by (subst string_of_nat.simps) simp
  qed
qed

lemma length_string_of_nat: "0 < d \<Longrightarrow> n < 10 ^ d \<Longrightarrow> length (string_of_nat n) \<le> d"
proof (induction n arbitrary: d rule: string_of_nat.induct)
  case (1 n)
  show ?case
  proof (cases "n < 10")
    case True
    then show ?thesis using 1(2) by (subst string_of_nat.simps) simp
  next
    case False
    obtain e where e: "d = Suc e" using 1(2) by (cases d) auto
    have e0: "0 < e" using False 1(3) e by (cases e) auto
    have "n < 10 * 10 ^ e" using 1(3) e by simp
    then have "n div 10 < 10 ^ e" by (simp add: less_mult_imp_div_less mult.commute)
    then have "length (string_of_nat (n div 10)) \<le> e"
      using 1(1)[OF False e0] by simp
    then show ?thesis using False e by (subst string_of_nat.simps) simp
  qed
qed

lemma decimals_append:
  assumes "CHR ''.'' \<notin> set fs"
  shows "decimals (pre @ ''.'' @ fs) = Some (length fs)"
proof -
  have "\<forall>c\<in>set (rev fs). c \<noteq> CHR ''.''" using assms by auto
  then have "takeWhile (\<lambda>c. c \<noteq> CHR ''.'') (rev fs @ ''.'' @ rev pre) = rev fs"
    by (simp add: takeWhile_tail)
  then show ?thesis by (simp add: decimals_def)
qed

lemma decimals_format_f: "0 < d \<Longrightarrow> decimals (format_f d (Fin x)) = Some d"
proof -
  assume d: "0 < d"
  define m where "m = nat (round_half_even (\<bar>x\<bar> * 10 ^ d))"
  define fr where "fr = zero_pad d (string_of_nat (m mod 10 ^ d))"
  define pre where "pre = (if x < 0 then ''-'' else '''') @ string_of_nat (m div 10 ^ d)"
  have "length (string_of_nat (m mod 10 ^ d)) \<le> d"
    using d by (intro length_string_of_nat) simp_all
  then have len: "length fr = d" by (simp add: zero_pad_def fr_def)
  have nodot: "CHR ''.'' \<notin> set fr"
    using string_of_nat_no_dot by (auto simp: zero_pad_def fr_def)
  have "format_f d (Fin x) = pre @ ''.'' @ fr"
    using d by (simp add: Let_def m_def fr_def pre_def)
  then show ?thesis using decimals_append[OF nodot, of pre] len by simp
qed

lemma set_rule_signals:
  "s \<in> set (rule_signals t l p) \<Longrightarrow>
   description s =
     (case signal_type s of
        GOLDEN_CROSS \<Rightarrow> ''SMA50 crossed above SMA200 - Strong bullish long-term signal''
      | DEATH_CROSS \<Rightarrow> ''SMA50 crossed below SMA200 - Strong bearish long-term signal''
      | RSI_OVERSOLD \<Rightarrow>
          ''RSI at '' @ format_f 1 (rsi_14 l) @ '' - Stock potentially oversold, consider buying''
      | RSI_OVERBOUGHT \<Rightarrow>
          ''RSI at '' @ format_f 1 (rsi_14 l) @
          '' - Stock potentially overbought, consider selling''
      | MACD_BULLISH \<Rightarrow> ''MACD crossed above signal line - Bullish momentum building''
      | MACD_BEARISH \<Rightarrow> ''MACD crossed below signal line - Bearish momentum building''
      | BB_OVERSOLD \<Rightarrow>
          ''Price ('' @ format_f 2 (close l) @ '') below lower Bollinger Band - Potential bounce''
      | BB_OVERBOUGHT \<Rightarrow>
          ''Price ('' @ format_f 2 (close l) @
          '') above upper Bollinger Band - Potential pullback''
      | NEUTRAL \<Rightarrow> ''No significant technical signals detected'')"
  unfolding rule_signals_def Let_def mk_signal_def
  by (auto split: if_splits)

text \<open>
  Claim C8, as amended. Every emitted record carries the fixed description of its rule.
  The RSI value is rendered with one decimal place, and the close price with two decimal
  places (the source formats it with \<open>.2f\<close>).
\<close>

theorem description_templates:
  "s \<in> set (generate_signals_for_ticker t df) \<Longrightarrow>
   description s =
     (case signal_type s of
        GOLDEN_CROSS \<Rightarrow> ''SMA50 crossed above SMA200 - Strong bullish long-term signal''
      | DEATH_CROSS \<Rightarrow> ''SMA50 crossed below SMA200 - Strong bearish long-term signal''
      | RSI_OVERSOLD \<Rightarrow>
          ''RSI at '' @ format_f 1 (rsi_14 (latest_row (stock_rows t df))) @
          '' - Stock potentially oversold, consider buying''
      | RSI_OVERBOUGHT \<Rightarrow>
          ''RSI at '' @ format_f 1 (rsi_14 (latest_row (stock_rows t df))) @
          '' - Stock potentially overbought, consider selling''
      | MACD_BULLISH \<Rightarrow> ''MACD crossed above signal line - Bullish momentum building''
      | MACD_BEARISH \<Rightarrow> ''MACD crossed below signal line - Bearish momentum building''
      | BB_OVERSOLD \<Rightarrow>
          ''Price ('' @ format_f 2 (close (latest_row (stock_rows t df))) @
          '') below lower Bollinger Band - Potential bounce''
      | BB_OVERBOUGHT \<Rightarrow>
          ''Price ('' @ format_f 2 (close (latest_row (stock_rows t df))) @
          '') above upper Bollinger Band - Potential pullback''
      | NEUTRAL \<Rightarrow> ''No significant technical signals detected'') \<and>
   (rsi_14 (latest_row (stock_rows t df)) = Fin x \<longrightarrow>
      decimals (format_f 1 (rsi_14 (latest_row (stock_rows t df)))) = Some 1) \<and>
   (close (latest_row (stock_rows t df)) = Fin y \<longrightarrow>
      decimals (format_f 2 (close (latest_row (stock_rows t df)))) = Some 2)"
proof -
  assume mem: "s \<in> set (generate_signals_for_ticker t df)"
  let ?l = "latest_row (stock_rows t df)"
  let ?p = "previous_row (stock_rows t df)"
  from mem have "s \<in> set (signals_for_rows t ?l ?p)"
    by (simp add: generate_signals_for_ticker_def Let_def split: if_splits)
  then have "s = neutral_signal t (date ?l) \<or> s \<in> set (rule_signals t ?l ?p)"
    by (simp add: signals_for_rows_def Let_def split: if_splits)
  then have tmpl: "description s =
     (case signal_type s of
        GOLDEN_CROSS \<Rightarrow> ''SMA50 crossed above SMA200 - Strong bullish long-term signal''
      | DEATH_CROSS \<Rightarrow> ''SMA50 crossed below SMA200 - Strong bearish long-term signal''
      | RSI_OVERSOLD \<Rightarrow>
          ''RSI at '' @ format_f 1 (rsi_14 ?l) @ '' - Stock potentially oversold, consider buying''
      | RSI_OVERBOUGHT \<Rightarrow>
          ''RSI at '' @ format_f 1 (rsi_14 ?l) @
          '' - Stock potentially overbought, consider selling''
      | MACD_BULLISH \<Rightarrow> ''MACD crossed above signal line - Bullish momentum building''
      | MACD_BEARISH \<Rightarrow> ''MACD crossed below signal line - Bearish momentum building''
      | BB_OVERSOLD \<Rightarrow>
          ''Price ('' @ format_f 2 (close ?l) @ '') below lower Bollinger Band - Potential bounce''
      | BB_OVERBOUGHT \<Rightarrow>
          ''Price ('' @ format_f 2 (close ?l) @
          '') above upper Bollinger Band - Potential pullback''
      | NEUTRAL \<Rightarrow> ''No significant technical signals detected'')"
  proof
    assume "s = neutral_signal t (date ?l)"
    then show ?thesis by (simp add: neutral_signal_def mk_signal_def)
  next
    assume "s \<in> set (rule_signals t ?l ?p)"
    then show ?thesis by (rule set_rule_signals)
  qed
  have d1: "rsi_14 ?l = Fin x \<longrightarrow> decimals (format_f 1 (rsi_14 ?l)) = Some 1"
    using decimals_format_f[of 1 x] by simp
  have d2: "close ?l = Fin y \<longrightarrow> decimals (format_f 2 (close ?l)) = Some 2"
    using decimals_format_f[of 2 y] by simp
  show ?thesis using tmpl d1 d2 by blast
qed

lemma bb_example_signals:
  "generate_signals_for_ticker ''AAPL'' bb_example =
     [mk_signal ''AAPL'' 2 RSI_OVERSOLD MEDIUM
        ''RSI at 25.4 - Stock potentially oversold, consider buying'',
      mk_signal ''AAPL'' 2 BB_OVERSOLD WEAK
        ''Price (95.27) below lower Bollinger Band - Potential bounce'']"
  by (simp add: generate_signals_for_ticker_def signals_for_rows_def rule_signals_def
      stock_rows_def bb_example_def mk_row_def latest_row_def previous_row_def Let_def
      golden_cross_cond_def death_cross_cond_def rsi_oversold_cond_def rsi_overbought_cond_def
      macd_bullish_cond_def macd_bearish_cond_def bb_oversold_cond_def bb_overbought_cond_def
      fl_gt_def fl_ge_def format_eval)

text \<open>
  Claim C8 as stated fails: a close of 95.27 below the lower band is rendered as
  \<open>95.27\<close>, with two decimal places, not as \<open>95.3\<close>.
\<close>

theorem close_price_two_decimals_counterexample:
  "map signal_type (generate_signals_for_ticker ''AAPL'' bb_example) =
     [RSI_OVERSOLD, BB_OVERSOLD] \<and>
   map description (generate_signals_for_ticker ''AAPL'' bb_example) =
     [''RSI at 25.4 - Stock potentially oversold, consider buying'',
      ''Price (95.27) below lower Bollinger Band - Potential bounce''] \<and>
   format_f 1 (Fin 95.27) = ''95.3'' \<and>
   description (generate_signals_for_ticker ''AAPL'' bb_example ! 1) \<noteq>
     ''Price ('' @ format_f 1 (Fin 95.27) @ '') below lower Bollinger Band - Potential bounce''"
  by (simp add: bb_example_signals mk_signal_def format_eval)

theorem description_templates_witness:
  "description (generate_signals_for_ticker ''AAPL'' bb_example ! 1) =
     ''Price ('' @ format_f 2 (Fin 95.27) @ '') below lower Bollinger Band - Potential bounce'' \<and>
   decimals (format_f 1 (Fin 25.35)) = Some 1 \<and>
   decimals (format_f 2 (Fin 95.27)) = Some 2"
proof -
  let ?s = "generate_signals_for_ticker ''AAPL'' bb_example ! 1"
  have mem: "?s \<in> set (generate_signals_for_ticker ''AAPL'' bb_example)"
    by (simp add: bb_example_signals)
  have st: "latest_row (stock_rows ''AAPL'' bb_example) =
              mk_row ''AAPL'' 2 (Fin 95.27) NaN NaN (Fin 25.35) NaN NaN (Fin 110) (Fin 96)"
    by (simp add: stock_rows_def bb_example_def mk_row_def latest_row_def)
  have ty: "signal_type ?s = BB_OVERSOLD"
    by (simp add: bb_example_signals mk_signal_def)
  show ?thesis
    using description_templates[OF mem, of "25.35" "95.27"]
    unfolding st ty by (simp add: mk_row_def)
qed

section \<open>Properties of the risk engine\<close>

lemma distinct_unique: "distinct (unique xs)"
  by (simp add: unique_def)

lemma set_unique: "set (unique xs) = set xs"
  by (simp add: unique_def)

lemma ticker_metrics_ticker: "r \<in> set (ticker_metrics df u) \<Longrightarrow> rm_ticker r = u"
  by (auto simp: ticker_metrics_def risk_record_def Let_def split: if_splits)

lemma filter_ticker_metrics:
  "filter (\<lambda>r. rm_ticker r = t) (ticker_metrics df u) = (if u = t then ticker_metrics df t else [])"
  by (auto simp: ticker_metrics_def risk_record_def Let_def)

lemma filter_concat_ticker_metrics:
  "distinct us \<Longrightarrow>
   filter (\<lambda>r. rm_ticker r = t) (concat (map (ticker_metrics df) us)) =
     (if t \<in> set us then ticker_metrics df t else [])"
proof (induction us)
  case Nil
  then show ?case by simp
next
  case (Cons u us)
  then show ?case by (auto simp: filter_ticker_metrics)
qed

lemma stock_returns_of_absent:
  "t \<notin> set (map ret_ticker df) \<Longrightarrow> stock_returns_of t df = []"
proof -
  assume "t \<notin> set (map ret_ticker df)"
  then have "filter (\<lambda>r. ret_ticker r = t) df = []"
    by (auto simp: filter_empty_conv)
  then show ?thesis by (simp add: stock_returns_of_def)
qed

lemma metrics_of_eq: "metrics_of t df = ticker_metrics df t"
proof (cases "t \<in> set (map ret_ticker df)")
  case True
  then show ?thesis
    unfolding metrics_of_def calculate_risk_metrics_def
    by (simp add: filter_concat_ticker_metrics distinct_unique set_unique)
next
  case False
  then have "ticker_metrics df t = []"
    by (simp add: ticker_metrics_def stock_returns_of_absent del: set_map)
  then show ?thesis
    using False unfolding metrics_of_def calculate_risk_metrics_def
    by (simp add: filter_concat_ticker_metrics distinct_unique set_unique del: set_map)
qed

lemma metrics_of_enough:
  "30 \<le> length (stock_returns_of t df) \<Longrightarrow>
   metrics_of t df = [risk_record t (stock_returns_of t df)]"
  by (simp add: metrics_of_eq ticker_metrics_def)

lemma metrics_of_short:
  "length (stock_returns_of t df) < 30 \<Longrightarrow> metrics_of t df = []"
  by (simp add: metrics_of_eq ticker_metrics_def)

lemma stock_returns_of_returns_df: "stock_returns_of t (returns_df t rs) = rs"
  by (induction rs) (simp_all add: stock_returns_of_def returns_df_def)

lemma stock_returns_of_valid_rows:
  "stock_returns_of t df =
     map (\<lambda>r. the (daily_return r))
       (filter (\<lambda>r. ret_ticker r = t \<and> daily_return r \<noteq> None) df)"
proof (induction df)
  case Nil
  then show ?case by (simp add: stock_returns_of_def)
next
  case (Cons r df)
  then show ?case
    by (cases "daily_return r") (auto simp: stock_returns_of_def)
qed

lemma filter_valid_returns_df:
  "filter (\<lambda>r. ret_ticker r = t \<and> daily_return r \<noteq> None) (returns_df u rs) =
     (if u = t then returns_df u rs else [])"
  by (induction rs) (simp_all add: returns_df_def)

lemma length_returns_df: "length (returns_df u rs) = length rs"
  by (simp add: returns_df_def)

text \<open>
  Claim C4. The risk table holds exactly one record for a ticker when at least 30 rows
  of that ticker in the input table carry a return that is not NaN, and no record when
  29 or fewer do. With 30 or more the record is the complete one computed from those
  returns in table order; rows with a NaN return and rows of other tickers do not
  count.
\<close>

theorem one_record_iff_thirty_valid_rows:
  "length (filter (\<lambda>m. rm_ticker m = t) (calculate_risk_metrics df)) =
     (if 30 \<le> length (filter (\<lambda>r. ret_ticker r = t \<and> daily_return r \<noteq> None) df)
      then 1 else 0) \<and>
   (length (filter (\<lambda>r. ret_ticker r = t \<and> daily_return r \<noteq> None) df) \<le> 29 \<longrightarrow>
      filter (\<lambda>m. rm_ticker m = t) (calculate_risk_metrics df) = []) \<and>
   (30 \<le> length (filter (\<lambda>r. ret_ticker r = t \<and> daily_return r \<noteq> None) df) \<longrightarrow>
      filter (\<lambda>m. rm_ticker m = t) (calculate_risk_metrics df) =
        [risk_record t
           (map (\<lambda>r. the (daily_return r))
              (filter (\<lambda>r. ret_ticker r = t \<and> daily_return r \<noteq> None) df))])"
proof -
  let ?valid = "filter (\<lambda>r. ret_ticker r = t \<and> daily_return r \<noteq> None) df"
  have len: "length (stock_returns_of t df) = length ?valid"
    by (simp add: stock_returns_of_valid_rows)
  have m: "filter (\<lambda>m. rm_ticker m = t) (calculate_risk_metrics df) = metrics_of t df"
    by (simp add: metrics_of_def)
  show ?thesis
  proof (cases "30 \<le> length ?valid")
    case True
    then have "metrics_of t df = [risk_record t (stock_returns_of t df)]"
      by (intro metrics_of_enough) (simp add: len)
    then show ?thesis unfolding m using True by (simp add: stock_returns_of_valid_rows)
  next
    case False
    then have "metrics_of t df = []"
      by (intro metrics_of_short) (simp add: len)
    then show ?thesis unfolding m using False by simp
  qed
qed

theorem one_record_iff_thirty_valid_rows_witness:
  "length (filter (\<lambda>m. rm_ticker m = ''AAPL'') (calculate_risk_metrics risk_example)) = 1 \<and>
   filter (\<lambda>m. rm_ticker m = ''MSFT'') (calculate_risk_metrics risk_example) = []"
proof -
  have a: "length (filter (\<lambda>r. ret_ticker r = ''AAPL'' \<and> daily_return r \<noteq> None) risk_example) = 30"
    by (simp add: risk_example_def filter_valid_returns_df[simplified] length_returns_df)
  have b: "length (filter (\<lambda>r. ret_ticker r = ''MSFT'' \<and> daily_return r \<noteq> None) risk_example) = 29"
    by (simp add: risk_example_def filter_valid_returns_df[simplified] length_returns_df)
  show ?thesis
    using one_record_iff_thirty_valid_rows[of "''AAPL''" risk_example]
      one_record_iff_thirty_valid_rows[of "''MSFT''" risk_example]
    unfolding a b by simp
qed

lemma round_half_even_0: "round_half_even 0 = 0"
  by (simp add: round_half_even_def)

lemma round_nd_0: "round_nd (Fin 0) k = Fin 0"
  by (simp add: round_half_even_0)

lemma std_s_short: "length xs \<le> 1 \<Longrightarrow> std_s xs = NaN"
  by (simp add: std_s_def)


lemma mean_s_nonempty: "xs \<noteq> [] \<Longrightarrow> \<exists>m. mean_s xs = Fin m"
  by (simp add: mean_s_def)





text \<open>
  Claim C10. For a processed ticker with no negative return or exactly one, the
  deviation of the negative returns is NaN, so is the annualized downside deviation, and
  the reported Sortino ratio is 0: the fallback covers the undefined denominator too.
\<close>

theorem downside_undefined_sortino_zero:
  "30 \<le> length (stock_returns_of t df) \<Longrightarrow>
   length (filter (\<lambda>r. r < 0) (stock_returns_of t df)) \<le> 1 \<Longrightarrow>
   std_s (downside_returns (stock_returns_of t df)) = NaN \<and>
   downside_std (stock_returns_of t df) = NaN \<and>
   map sortino_ratio (metrics_of t df) = [Fin 0]"
proof -
  assume n: "30 \<le> length (stock_returns_of t df)"
    and neg: "length (filter (\<lambda>r. r < 0) (stock_returns_of t df)) \<le> 1"
  let ?rs = "stock_returns_of t df"
  have s: "std_s (downside_returns ?rs) = NaN"
    using neg by (simp add: downside_returns_def std_s_short)
  then have d: "downside_std ?rs = NaN" by (simp add: downside_std_def)
  then have "sortino ?rs = Fin 0" by (simp add: sortino_def fl_gt_def)
  then have "sortino_ratio (risk_record t ?rs) = Fin 0"
    by (simp add: risk_record_def round_half_even_0)
  then show ?thesis using s d metrics_of_enough[OF n] by simp
qed

theorem downside_undefined_sortino_zero_witness:
  "downside_std (replicate 30 (1 / 100)) = NaN \<and>
   map sortino_ratio (metrics_of ''AAPL'' (returns_df ''AAPL'' (replicate 30 (1 / 100)))) = [Fin 0] \<and>
   downside_std (- (1 / 100) # replicate 29 (1 / 100)) = NaN \<and>
   map sortino_ratio
     (metrics_of ''AAPL'' (returns_df ''AAPL'' (- (1 / 100) # replicate 29 (1 / 100)))) = [Fin 0]"
  using downside_undefined_sortino_zero[of "''AAPL''" "returns_df ''AAPL'' (replicate 30 (1 / 100))"]
    downside_undefined_sortino_zero[of "''AAPL''"
      "returns_df ''AAPL'' (- (1 / 100) # replicate 29 (1 / 100))"]
  by (simp add: stock_returns_of_returns_df)






lemma sorted_nth_le:
  "sorted s \<Longrightarrow> i < length (filter (\<lambda>r. r \<le> c) s) \<Longrightarrow> s ! i \<le> (c::real)"
proof (induction s arbitrary: i)
  case Nil
  then show ?case by simp
next
  case (Cons x xs)
  show ?case
  proof (cases "x \<le> c")
    case True
    then show ?thesis using Cons by (cases i) auto
  next
    case False
    then have "\<forall>y\<in>set xs. \<not> y \<le> c" using Cons.prems(1) by auto
    then have "filter (\<lambda>r. r \<le> c) xs = []" by (simp add: filter_empty_conv)
    then show ?thesis using False Cons.prems(2) by simp
  qed
qed

lemma interp_nonpos:
  "a \<le> 0 \<Longrightarrow> b \<le> 0 \<Longrightarrow> 0 \<le> g \<Longrightarrow> g \<le> 1 \<Longrightarrow> a + (b - a) * g \<le> (0::real)"
proof -
  assume a: "a \<le> 0" and b: "b \<le> 0" and g: "0 \<le> g" "g \<le> 1"
  have "a + (b - a) * g = a * (1 - g) + b * g" by (simp add: algebra_simps)
  moreover have "a * (1 - g) \<le> 0" using a g by (simp add: mult_nonpos_nonneg)
  moreover have "b * g \<le> 0" using b g by (simp add: mult_nonpos_nonneg)
  ultimately show ?thesis by simp
qed

lemma quantile_nonpos:
  assumes "xs \<noteq> []" and "0 \<le> q"
    and "nat \<lfloor>real (length xs - 1) * q\<rfloor> + 2 \<le> length (filter (\<lambda>r. r \<le> 0) xs)"
  shows "\<exists>v. quantile q xs = Fin v \<and> v \<le> 0"
proof -
  define s where "s = sort xs"
  define h where "h = real (length xs - 1) * q"
  define lo where "lo = nat \<lfloor>h\<rfloor>"
  define hi where "hi = min (lo + 1) (length xs - 1)"
  have cnt: "length (filter (\<lambda>r. r \<le> 0) s) = length (filter (\<lambda>r. r \<le> 0) xs)"
    unfolding s_def by (simp add: filter_sort)
  have srt: "sorted s" by (simp add: s_def)
  have h0: "0 \<le> h" using assms(2) by (simp add: h_def)
  have lo2: "lo + 2 \<le> length (filter (\<lambda>r. r \<le> 0) s)"
    using assms(3) by (simp add: cnt lo_def h_def)
  have a: "s ! lo \<le> 0" using lo2 by (intro sorted_nth_le[OF srt]) simp
  have b: "s ! hi \<le> 0" using lo2 by (intro sorted_nth_le[OF srt]) (simp add: hi_def)
  have g0: "0 \<le> h - real lo" using h0 by (simp add: lo_def)
  have g1: "h - real lo \<le> 1" using h0 unfolding lo_def by linarith
  have "quantile q xs = Fin (s ! lo + (s ! hi - s ! lo) * (h - real lo))"
    using assms(1) by (simp add: quantile_def Let_def s_def h_def lo_def hi_def)
  then show ?thesis using interp_nonpos[OF a b g0 g1] by simp
qed

lemma round_half_even_nonpos: "y \<le> 0 \<Longrightarrow> round_half_even y \<le> 0"
proof -
  assume y: "y \<le> 0"
  have f: "\<lfloor>y\<rfloor> \<le> 0" using y by (simp add: floor_le_zero)
  show ?thesis
  proof (cases "\<lfloor>y\<rfloor> = 0")
    case True
    then have "0 \<le> y" by (simp add: floor_eq_iff)
    then have "y = 0" using y by simp
    then show ?thesis by (simp add: round_half_even_0)
  next
    case False
    then have "\<lfloor>y\<rfloor> + 1 \<le> 0" using f by linarith
    then show ?thesis using f by (simp add: round_half_even_def Let_def)
  qed
qed

lemma round_nd_nonpos: "v \<le> 0 \<Longrightarrow> \<exists>w. round_nd (Fin v) k = Fin w \<and> w \<le> 0"
proof -
  assume "v \<le> 0"
  then have "v * 10 ^ k \<le> 0" by (simp add: mult_nonpos_nonneg)
  then have "round_half_even (v * 10 ^ k) \<le> 0" by (rule round_half_even_nonpos)
  then have "real_of_int (round_half_even (v * 10 ^ k)) / 10 ^ k \<le> 0"
    by (simp add: divide_nonpos_nonneg)
  then show ?thesis by simp
qed

text \<open>
  Claim C7, as amended. For a processed ticker with \<open>n\<close> returns of which at least
  \<open>\<lfloor>(n - 1) / 20\<rfloor> + 2\<close> are zero or negative, the reported \<open>var_95\<close> is at most 0.
\<close>

theorem var_95_nonpositive:
  "30 \<le> length (stock_returns_of t df) \<Longrightarrow>
   nat \<lfloor>real (length (stock_returns_of t df) - 1) * (5 / 100)\<rfloor> + 2
     \<le> length (filter (\<lambda>r. r \<le> 0) (stock_returns_of t df)) \<Longrightarrow>
   \<exists>v. map var_95 (metrics_of t df) = [Fin v] \<and> v \<le> 0"
proof -
  assume n: "30 \<le> length (stock_returns_of t df)"
    and k: "nat \<lfloor>real (length (stock_returns_of t df) - 1) * (5 / 100)\<rfloor> + 2
              \<le> length (filter (\<lambda>r. r \<le> 0) (stock_returns_of t df))"
  let ?rs = "stock_returns_of t df"
  have ne: "?rs \<noteq> []" using n by auto
  obtain v where v: "quantile (5 / 100) ?rs = Fin v" "v \<le> 0"
    using quantile_nonpos[OF ne _ k] by auto
  obtain w where w: "round_nd (Fin v) 6 = Fin w" "w \<le> 0"
    using round_nd_nonpos[OF v(2), of 6] by auto
  have "var_95 (risk_record t ?rs) = Fin w"
    using v w by (simp add: risk_record_def)
  then show ?thesis using metrics_of_enough[OF n] w(2) by simp
qed

lemma quantile_one_negative:
  "quantile (5 / 100) (- (1 / 100) # replicate 29 1) = Fin 1"
proof -
  have srt: "sort (- (1 / 100) # replicate 29 (1::real)) = - (1 / 100) # replicate 29 1"
    by (rule sorted_sort_id) (simp add: sorted_replicate)
  have fl: "\<lfloor>29 * (5 / 100 :: real)\<rfloor> = 1" by (simp add: floor_eq_iff)
  show ?thesis
    unfolding quantile_def Let_def srt by (simp add: fl)
qed

text \<open>
  Claim C7 as stated fails: with one return of -0.01 and 29 returns of 1, the 5th
  percentile lies between the second and third smallest return, and \<open>var_95\<close> is 1.
\<close>

theorem var_95_one_negative_counterexample:
  "30 \<le> length (stock_returns_of ''AAPL'' (returns_df ''AAPL'' (- (1 / 100) # replicate 29 1))) \<and>
   - (1 / 100) \<in> set (stock_returns_of ''AAPL'' (returns_df ''AAPL'' (- (1 / 100) # replicate 29 1))) \<and>
   map var_95 (metrics_of ''AAPL'' (returns_df ''AAPL'' (- (1 / 100) # replicate 29 1))) = [Fin 1] \<and>
   \<not> fl_le (Fin 1) (Fin 0)"
proof -
  let ?rs = "- (1 / 100) # replicate 29 (1::real)"
  have m: "metrics_of ''AAPL'' (returns_df ''AAPL'' ?rs) = [risk_record ''AAPL'' ?rs]"
    using metrics_of_enough[of "''AAPL''" "returns_df ''AAPL'' ?rs"]
    by (simp add: stock_returns_of_returns_df)
  have r: "round_half_even 1000000 = 1000000" by (simp add: round_half_even_def Let_def)
  have "var_95 (risk_record ''AAPL'' ?rs) = Fin 1"
    using quantile_one_negative by (simp add: risk_record_def r)
  then show ?thesis unfolding m by (simp add: stock_returns_of_returns_df)
qed

theorem var_95_nonpositive_witness:
  "\<exists>v. map var_95 (metrics_of ''AAPL'' (returns_df ''AAPL'' spec_returns)) = [Fin v] \<and> v \<le> 0"
proof -
  have len: "length spec_returns = 32" by (simp add: spec_returns_def eval_nat_numeral)
  have cnt: "length (filter (\<lambda>r. r \<le> 0) spec_returns) = 16"
    by (simp add: spec_returns_def eval_nat_numeral)
  have fl: "\<lfloor>31 * (5 / 100 :: real)\<rfloor> = 1" by (simp add: floor_eq_iff)
  have n: "30 \<le> length (stock_returns_of ''AAPL'' (returns_df ''AAPL'' spec_returns))"
    by (simp add: stock_returns_of_returns_df len)
  have k: "nat \<lfloor>real (length (stock_returns_of ''AAPL'' (returns_df ''AAPL'' spec_returns)) - 1)
                  * (5 / 100)\<rfloor> + 2
             \<le> length (filter (\<lambda>r. r \<le> 0)
                  (stock_returns_of ''AAPL'' (returns_df ''AAPL'' spec_returns)))"
    by (simp add: stock_returns_of_returns_df len cnt fl)
  show ?thesis using var_95_nonpositive[OF n k] .
qed

section \<open>Properties of the indicator engine\<close>

lemma length_rolling_mean: "length (rolling_mean w xs) = length xs"
  by (simp add: rolling_mean_def)

lemma nth_rolling_mean:
  "i < length xs \<Longrightarrow>
   rolling_mean w xs ! i =
     (if Suc i < w then None else window_mean (take w (drop (Suc i - w) xs)))"
  by (simp add: rolling_mean_def)

lemma window_mean_all_some:
  "list_all (\<lambda>x. x \<noteq> None) ws \<Longrightarrow> window_mean ws \<noteq> None"
  by (simp add: window_mean_def)

lemma list_all_take_drop:
  "list_all P xs \<Longrightarrow> list_all P (take w (drop k xs))"
  by (auto simp: list_all_iff dest: in_set_takeD in_set_dropD)

lemma notna_to_fl: "notna (to_fl x) \<longleftrightarrow> x \<noteq> None"
  by (cases x) simp_all

lemma window_all_valid_iff:
  assumes "n \<le> i + 1" and "i < length xs"
  shows "list_all P (take n (drop (i + 1 - n) xs)) \<longleftrightarrow>
           (\<forall>j. i + 1 - n \<le> j \<and> j \<le> i \<longrightarrow> P (xs ! j))"
proof -
  let ?k = "i + 1 - n"
  have len: "length (take n (drop ?k xs)) = n" using assms by simp
  have nth: "\<And>m. m < n \<Longrightarrow> take n (drop ?k xs) ! m = xs ! (?k + m)"
    using assms by simp
  show ?thesis
  proof
    assume a: "list_all P (take n (drop ?k xs))"
    show "\<forall>j. ?k \<le> j \<and> j \<le> i \<longrightarrow> P (xs ! j)"
    proof (intro allI impI)
      fix j assume j: "?k \<le> j \<and> j \<le> i"
      then have m: "j - ?k < n" using assms by linarith
      have "P (take n (drop ?k xs) ! (j - ?k))"
        using a m len by (simp add: list_all_length)
      then show "P (xs ! j)" using nth[OF m] j by simp
    qed
  next
    assume b: "\<forall>j. ?k \<le> j \<and> j \<le> i \<longrightarrow> P (xs ! j)"
    show "list_all P (take n (drop ?k xs))"
      unfolding list_all_length len
    proof (intro allI impI)
      fix m assume m: "m < n"
      then have "?k \<le> ?k + m \<and> ?k + m \<le> i" using assms by linarith
      then have "P (xs ! (?k + m))" using b by blast
      then show "P (take n (drop ?k xs) ! m)" using nth[OF m] by simp
    qed
  qed
qed

lemma window_sum:
  assumes "n \<le> i + 1" and "i < length xs"
  shows "sum_list (map f (take n (drop (i + 1 - n) xs))) = (\<Sum>j = i + 1 - n..i. f (xs ! j))"
proof -
  let ?k = "i + 1 - n"
  let ?w = "take n (drop ?k xs)"
  have len: "length ?w = n" using assms by simp
  have "sum_list (map f ?w) = (\<Sum>m = 0..<n. f (?w ! m))"
    using len by (simp add: sum_list_sum_nth)
  also have "\<dots> = (\<Sum>m = 0..<n. f (xs ! (m + ?k)))"
    using assms by (intro sum.cong) (simp_all add: add.commute)
  also have "\<dots> = (\<Sum>j = 0 + ?k..<n + ?k. f (xs ! j))"
    by (rule sum.shift_bounds_nat_ivl[symmetric])
  also have "{0 + ?k..<n + ?k} = {?k..i}" using assms by auto
  finally show ?thesis .
qed

text \<open>
  Claim C3, as amended. For \<open>n\<close> among 20, 50 and 200, \<open>sma_n\<close> at row \<open>i\<close> (counted
  from 0) is defined exactly when the \<open>n\<close> trailing bars ending at that row exist
  (\<open>n \<le> i + 1\<close>) and none of their closes is NaN; it is then their arithmetic mean.
  Otherwise the value is NaN, not zero and not an error. For a ticker without NaN closes
  it is defined exactly when \<open>n \<le> i + 1\<close>.
\<close>

theorem sma_defined_iff_window_valid:
  "n \<in> {20, 50, 200} \<Longrightarrow> i < length closes \<Longrightarrow>
   (notna (sma n closes ! i) \<longleftrightarrow>
      n \<le> i + 1 \<and> (\<forall>j. i + 1 - n \<le> j \<and> j \<le> i \<longrightarrow> closes ! j \<noteq> None)) \<and>
   (\<not> notna (sma n closes ! i) \<longrightarrow> sma n closes ! i = NaN) \<and>
   (notna (sma n closes ! i) \<longrightarrow>
      sma n closes ! i = Fin ((\<Sum>j = i + 1 - n..i. the (closes ! j)) / real n)) \<and>
   (list_all (\<lambda>c. c \<noteq> None) closes \<longrightarrow> (notna (sma n closes ! i) \<longleftrightarrow> n \<le> i + 1))"
proof -
  assume n: "n \<in> {20, 50, 200}" and i: "i < length closes"
  let ?w = "take n (drop (i + 1 - n) closes)"
  have s: "sma n closes ! i = to_fl (rolling_mean n closes ! i)"
    using i by (simp add: sma_def length_rolling_mean)
  show ?thesis
  proof (cases "n \<le> i + 1")
    case False
    then have "sma n closes ! i = NaN" unfolding s using i by (simp add: nth_rolling_mean)
    then show ?thesis using False by simp
  next
    case True
    have len: "length ?w = n" using True i by simp
    have r: "rolling_mean n closes ! i = window_mean ?w"
      using True i by (simp add: nth_rolling_mean)
    have v: "list_all (\<lambda>c. c \<noteq> None) ?w \<longleftrightarrow>
               (\<forall>j. i + 1 - n \<le> j \<and> j \<le> i \<longrightarrow> closes ! j \<noteq> None)"
      by (rule window_all_valid_iff[OF True i])
    have sm: "sum_list (map the ?w) = (\<Sum>j = i + 1 - n..i. the (closes ! j))"
      by (rule window_sum[OF True i])
    have all: "list_all (\<lambda>c. c \<noteq> None) closes \<Longrightarrow> list_all (\<lambda>c. c \<noteq> None) ?w"
      by (rule list_all_take_drop)
    show ?thesis
    proof (cases "list_all (\<lambda>c. c \<noteq> None) ?w")
      case valid: True
      then have "window_mean ?w = Some (sum_list (map the ?w) / real (length ?w))"
        unfolding window_mean_def by (simp only: if_True)
      then have "window_mean ?w = Some (sum_list (map the ?w) / real n)"
        unfolding len .
      then have "sma n closes ! i = Fin (sum_list (map the ?w) / real n)"
        unfolding s r by simp
      then show ?thesis using True valid v sm by simp
    next
      case invalid: False
      then have "sma n closes ! i = NaN" unfolding s r by (simp add: window_mean_def)
      then show ?thesis using True invalid v all by auto
    qed
  qed
qed

text \<open>
  Claim C3 as stated fails when a close is missing: with 20 bars of which the last has
  a NaN close, \<open>sma_20\<close> at the 20th bar is NaN although 20 bars exist.
\<close>

theorem sma_nan_close_counterexample:
  "19 < length gap_closes \<and> 20 \<le> length gap_closes \<and> sma 20 gap_closes ! 19 = NaN \<and>
   \<not> notna (sma 20 gap_closes ! 19)"
proof -
  have i: "19 < length gap_closes" by (simp add: gap_closes_def)
  have "rolling_mean 20 gap_closes ! 19 = None"
    unfolding nth_rolling_mean[OF i]
    by (simp add: gap_closes_def window_mean_def)
  then have "sma 20 gap_closes ! 19 = NaN"
    using i by (simp add: sma_def length_rolling_mean)
  then show ?thesis using i by simp
qed

theorem sma_defined_iff_window_valid_witness:
  "notna (sma 20 flat_closes ! 19) \<and> sma 20 flat_closes ! 18 = NaN \<and>
   sma 20 gap_closes ! 19 = NaN"
proof -
  have ok: "list_all (\<lambda>c. c \<noteq> None) flat_closes" by (simp add: flat_closes_def list_all_iff)
  have n: "(20::nat) \<in> {20, 50, 200}" by simp
  have i: "19 < length flat_closes" and j: "18 < length flat_closes"
    and k: "19 < length gap_closes"
    by (simp_all add: flat_closes_def gap_closes_def)
  have g: "\<not> (\<forall>j. 19 + 1 - 20 \<le> j \<and> j \<le> 19 \<longrightarrow> gap_closes ! j \<noteq> None)"
  proof
    assume "\<forall>j. 19 + 1 - 20 \<le> j \<and> j \<le> 19 \<longrightarrow> gap_closes ! j \<noteq> None"
    then have "gap_closes ! 19 \<noteq> None" by simp
    then show False by (simp add: gap_closes_def nth_append)
  qed
  have "list_all (\<lambda>c. c \<noteq> None) flat_closes \<longrightarrow>
          (notna (sma 20 flat_closes ! 19) \<longleftrightarrow> (20::nat) \<le> 19 + 1)"
    using sma_defined_iff_window_valid[OF n i] by blast
  then have a: "notna (sma 20 flat_closes ! 19)"
    using ok by simp
  have b: "sma 20 flat_closes ! 18 = NaN"
    using sma_defined_iff_window_valid[OF n j] by simp
  have "\<not> notna (sma 20 gap_closes ! 19)"
    using sma_defined_iff_window_valid[OF n k] g by blast
  then have c: "sma 20 gap_closes ! 19 = NaN"
    using sma_defined_iff_window_valid[OF n k] by blast
  show ?thesis using a b c by simp
qed

lemma length_diff_from: "length (diff_from p xs) = length xs"
  by (induction xs arbitrary: p) simp_all

lemma gain_of_nonneg: "\<exists>g. gain_of d = Some g \<and> 0 \<le> g"
  by (cases d) auto

lemma loss_of_nonneg: "\<exists>l. loss_of d = Some l \<and> 0 \<le> l"
  by (cases d) auto

lemma window_mean_nonneg:
  assumes "\<forall>x\<in>set ws. \<exists>v. x = Some v \<and> 0 \<le> v"
  shows "\<exists>m. window_mean ws = Some m \<and> 0 \<le> m"
proof -
  have a: "list_all (\<lambda>x. x \<noteq> None) ws" using assms by (auto simp: list_all_iff)
  have "0 \<le> sum_list (map the ws)"
    by (rule sum_list_nonneg) (use assms in auto)
  then have "0 \<le> sum_list (map the ws) / real (length ws)" by simp
  then show ?thesis using a by (simp add: window_mean_def)
qed

lemma rolling_mean_nonneg:
  assumes "\<forall>x\<in>set xs. \<exists>v. x = Some v \<and> 0 \<le> v" and "i < length xs"
  shows "rolling_mean w xs ! i = None \<or> (\<exists>m. rolling_mean w xs ! i = Some m \<and> 0 \<le> m)"
proof (cases "Suc i < w")
  case True
  then show ?thesis using assms(2) by (simp add: nth_rolling_mean)
next
  case False
  have "\<forall>x\<in>set (take w (drop (Suc i - w) xs)). \<exists>v. x = Some v \<and> 0 \<le> v"
    using assms(1) by (auto dest: in_set_takeD in_set_dropD)
  then have "\<exists>m. window_mean (take w (drop (Suc i - w) xs)) = Some m \<and> 0 \<le> m"
    by (rule window_mean_nonneg)
  then show ?thesis using False assms(2) by (simp add: nth_rolling_mean)
qed

lemma avg_gain_nonneg:
  "i < length closes \<Longrightarrow>
   avg_gain closes ! i = None \<or> (\<exists>g. avg_gain closes ! i = Some g \<and> 0 \<le> g)"
  unfolding avg_gain_def
  by (rule rolling_mean_nonneg) (auto simp: diff_def length_diff_from gain_of_nonneg)

lemma avg_loss_nonneg:
  "i < length closes \<Longrightarrow>
   avg_loss closes ! i = None \<or> (\<exists>l. avg_loss closes ! i = Some l \<and> 0 \<le> l)"
  unfolding avg_loss_def
  by (rule rolling_mean_nonneg) (auto simp: diff_def length_diff_from loss_of_nonneg)

lemma length_avg: "length (avg_gain closes) = length closes" "length (avg_loss closes) = length closes"
  by (simp_all add: avg_gain_def avg_loss_def length_rolling_mean diff_def length_diff_from)

lemma nth_rsi_14_series:
  "i < length closes \<Longrightarrow>
   rsi_14_series closes ! i =
     rsi_of_rs (fl_div (to_fl (avg_gain closes ! i)) (to_fl (avg_loss closes ! i)))"
  by (simp add: rsi_14_series_def rs_series_def length_avg)

lemma rsi_saturates: "0 < g \<Longrightarrow> rsi_of_rs (fl_div (Fin g) (Fin 0)) = Fin 100"
  by (simp add: rsi_of_rs_def fl_sub_def)

lemma rsi_flat: "rsi_of_rs (fl_div (Fin 0) (Fin 0)) = NaN"
  by (simp add: rsi_of_rs_def fl_sub_def)

lemma rsi_range:
  assumes "0 \<le> g" and "0 \<le> l"
  shows "rsi_of_rs (fl_div (Fin g) (Fin l)) = NaN \<or>
         (\<exists>r. rsi_of_rs (fl_div (Fin g) (Fin l)) = Fin r \<and> 0 \<le> r \<and> r \<le> 100)"
proof (cases "l = 0")
  case True
  then show ?thesis using assms(1) rsi_saturates[of g] rsi_flat by (cases "g = 0") auto
next
  case False
  then have l: "0 < l" using assms(2) by simp
  define q where "q = 1 + g / l"
  have q1: "1 \<le> q" using assms(1) l by (simp add: q_def)
  then have "100 / q \<le> 100" "0 \<le> 100 / q" by (simp_all add: divide_le_eq)
  moreover have "rsi_of_rs (fl_div (Fin g) (Fin l)) = Fin (100 - 100 / q)"
    using False q1 by (simp add: rsi_of_rs_def fl_sub_def q_def)
  ultimately show ?thesis by simp
qed

text \<open>
  Claim C1, as amended. At a position where the 14-bar average loss is 0, \<open>rsi_14\<close> is
  100 when the 14-bar average gain is positive, and NaN when the average gain is 0 as
  well (a flat window, 0 / 0). Every \<open>rsi_14\<close> value is NaN or a number in [0, 100].
\<close>

theorem rsi_saturation_and_range:
  "i < length closes \<Longrightarrow>
   (avg_loss closes ! i = Some 0 \<and> avg_gain closes ! i = Some g \<and> 0 < g \<longrightarrow>
      rsi_14_series closes ! i = Fin 100) \<and>
   (avg_loss closes ! i = Some 0 \<and> avg_gain closes ! i = Some 0 \<longrightarrow>
      rsi_14_series closes ! i = NaN) \<and>
   (rsi_14_series closes ! i = NaN \<or>
    (\<exists>r. rsi_14_series closes ! i = Fin r \<and> 0 \<le> r \<and> r \<le> 100))"
proof -
  assume i: "i < length closes"
  note r = nth_rsi_14_series[OF i]
  have a: "avg_loss closes ! i = Some 0 \<and> avg_gain closes ! i = Some g \<and> 0 < g \<longrightarrow>
      rsi_14_series closes ! i = Fin 100"
    unfolding r using rsi_saturates[of g] by auto
  have b: "avg_loss closes ! i = Some 0 \<and> avg_gain closes ! i = Some 0 \<longrightarrow>
      rsi_14_series closes ! i = NaN"
    unfolding r using rsi_flat by auto
  have c: "rsi_14_series closes ! i = NaN \<or>
    (\<exists>r. rsi_14_series closes ! i = Fin r \<and> 0 \<le> r \<and> r \<le> 100)"
  proof (cases "avg_gain closes ! i")
    case None
    then show ?thesis unfolding r by (simp add: rsi_of_rs_def fl_sub_def)
  next
    case (Some g')
    note g = this
    show ?thesis
    proof (cases "avg_loss closes ! i")
      case None
      then show ?thesis unfolding r g by (simp add: rsi_of_rs_def fl_sub_def)
    next
      case (Some l')
      have "0 \<le> g'" using avg_gain_nonneg[OF i] g by simp
      moreover have "0 \<le> l'" using avg_loss_nonneg[OF i] Some by simp
      ultimately show ?thesis unfolding r g Some to_fl.simps by (rule rsi_range)
    qed
  qed
  show ?thesis using a b c by blast
qed

lemma diff_from_flat: "diff_from (Some c) (replicate n (Some c)) = replicate n (Some 0)"
  by (induction n) simp_all

lemma flat_gain: "map gain_of (diff flat_closes) = replicate 20 (Some 0)"
proof -
  have e: "flat_closes = Some 100 # replicate 19 (Some 100)"
    by (simp add: flat_closes_def eval_nat_numeral)
  have "diff flat_closes = None # replicate 19 (Some 0)"
    unfolding e diff_def by (simp add: diff_from_flat)
  then show ?thesis by (simp add: eval_nat_numeral)
qed

lemma flat_loss: "map loss_of (diff flat_closes) = replicate 20 (Some 0)"
proof -
  have e: "flat_closes = Some 100 # replicate 19 (Some 100)"
    by (simp add: flat_closes_def eval_nat_numeral)
  have "diff flat_closes = None # replicate 19 (Some 0)"
    unfolding e diff_def by (simp add: diff_from_flat)
  then show ?thesis by (simp add: eval_nat_numeral)
qed

lemma window_mean_zeros: "0 < n \<Longrightarrow> window_mean (replicate n (Some 0)) = Some 0"
  by (simp add: window_mean_def list_all_iff sum_list_replicate)

text \<open>
  Claim C1 as stated fails on a flat series: at row 19 of 20 equal closes the average
  loss is 0 and \<open>rsi_14\<close> is NaN, not 100.
\<close>

theorem rsi_flat_window_counterexample:
  "19 < length flat_closes \<and> avg_loss flat_closes ! 19 = Some 0 \<and>
   rsi_14_series flat_closes ! 19 = NaN \<and> \<not> notna (rsi_14_series flat_closes ! 19) \<and>
   rsi_14_series flat_closes ! 19 \<noteq> Fin 100"
proof -
  have i: "19 < length flat_closes" by (simp add: flat_closes_def)
  have l: "avg_loss flat_closes ! 19 = Some 0"
    by (simp add: avg_loss_def flat_loss nth_rolling_mean window_mean_zeros)
  have g: "avg_gain flat_closes ! 19 = Some 0"
    by (simp add: avg_gain_def flat_gain nth_rolling_mean window_mean_zeros)
  have "rsi_14_series flat_closes ! 19 = NaN"
    unfolding nth_rsi_14_series[OF i] l g to_fl.simps by (rule rsi_flat)
  then show ?thesis using i l by simp
qed

theorem rsi_saturation_and_range_witness:
  "avg_loss rising_closes ! 14 = Some 0 \<and> avg_gain rising_closes ! 14 = Some 1 \<and>
   rsi_14_series rising_closes ! 14 = Fin 100"
proof -
  have i: "14 < length rising_closes" by (simp add: rising_closes_def)
  have l: "avg_loss rising_closes ! 14 = Some 0"
    by (simp add: avg_loss_def rising_closes_def diff_def nth_rolling_mean window_mean_def)
  have g: "avg_gain rising_closes ! 14 = Some 1"
    by (simp add: avg_gain_def rising_closes_def diff_def nth_rolling_mean window_mean_def)
  show ?thesis using rsi_saturation_and_range[OF i, of 1] l g by simp
qed

end
